theory Spec2Isabelle
  imports Main "HOL-Library.Sublist"
begin

section \<open>The build front door of webpack: \<open>lib/webpack.js\<close>\<close>

text \<open>
  \<open>lib/webpack.js\<close> is orchestration code: it calls collaborators that live in other
  modules (the normaliser, the two defaults passes, the \<open>Compiler\<close> and
  \<open>MultiCompiler\<close> classes, the plugins of the configuration, the hooks, the schema
  validators) and decides in which order, with which arguments, and what happens when one
  of them throws. The embedding therefore keeps
  \<^item> a \<^emph>\<open>trace\<close>: every call that \<open>webpack.js\<close> makes to a collaborator is appended, in
    program order, with its arguments, also when the call throws;
  \<^item> an \<^emph>\<open>environment\<close>: what the collaborators do. Whether a call throws may depend on
    everything that happened before (the trace so far); the values returned by the
    normaliser and the defaults passes are functions of their argument. The loop of
    line 78 walks the very array that every plugin can reach through
    \<open>compiler.options.plugins\<close>, so the environment also says what this array holds after
    each registration call. The other fields that \<open>webpack.js\<close> reads later (\<open>context\<close>,
    \<open>dependencies\<close>) are taken as the normaliser and the defaults passes left them, and a
    compiler written in an event stands for the compiler object, with the options as these
    passes produced them;
  \<^item> the process-wide set of deprecation codes already warned about, and the queue of
    \<open>process.nextTick\<close>;
  \<^item> the closures that \<open>webpack.js\<close> hands to \<open>run\<close>, \<open>close\<close>, \<open>watch\<close> and
    \<open>process.nextTick\<close> as a datatype of continuations, with a function that says what
    each one does when it is invoked.
\<close>

subsection \<open>Values\<close>

text \<open>An optional JavaScript value: \<open>undefined\<close>, \<open>null\<close>, or a value proper.\<close>

datatype 'a js = Undefined | Null | Val 'a

text \<open>An object whose contents \<open>webpack.js\<close> never inspects; \<open>{}\<close> is the empty list.\<close>

type_synonym js_object = "(string \<times> string) list"

definition emptyObject :: js_object where
  "emptyObject = []"

text \<open>A thrown value: an error object with its class name and its message.\<close>

datatype error = JSError (err_name: string) (err_message: string)

text \<open>
  An element of \<open>options.plugins\<close>, by what lines 81 to 87 can see of it:
  a value with \<open>typeof plugin === "function"\<close>; a value with a callable \<open>apply\<close>
  property; a value that is not a function and whose \<open>apply\<close> is not callable (an object
  without \<open>apply\<close>, a number, a string); \<open>null\<close> or \<open>undefined\<close>. The string is the
  plugin's name.
\<close>

datatype plugin = Callable string | WithApply string | WithoutApply string | Nullish

text \<open>The \<open>plugins\<close> field: unset, an array, or a single value that is not an array.\<close>

datatype plugins_value = PluginsUndefined | PluginsArray "plugin list" | PluginsOther plugin

text \<open>
  A configuration object, raw or normalised, with the fields that \<open>webpack.js\<close> reads.
  \<open>watch\<close> is \<open>boolean | undefined\<close> and \<open>dependencies\<close> is \<open>string[] | undefined\<close>, as
  the declared type \<open>WebpackOptions\<close> has them.
\<close>

record WebpackOptions =
  name :: "string option"
  o_context :: "string option"
  infrastructureLogging :: "js_object option"
  plugins :: plugins_value
  dependencies :: "string list option"
  watch :: "bool option"
  watchOptions :: "js_object option"

text \<open>
  Modelled from the spec: the classes \<open>Compiler\<close> and \<open>MultiCompiler\<close> are not among the
  sources. A compiler is bound to the context it was constructed with and owns the
  options object it was given (the very object, so the full defaults pass on \<open>options\<close>
  is seen through \<open>compiler.options\<close>); a multi-compiler wraps the ordered list of
  children and the aggregate options, and \<open>setDependencies\<close> records for a child the
  names of the peers it depends on.
\<close>

record Compiler =
  c_context :: "string option"
  c_options :: WebpackOptions

record MultiCompiler =
  compilers :: "Compiler list"
  mc_options :: js_object
  mc_dependencies :: "(Compiler \<times> string list) list"

datatype handle = ACompiler Compiler | AMultiCompiler MultiCompiler

text \<open>The first argument of \<open>webpack\<close>: one configuration, or an array of them that also
  carries the aggregate options.\<close>

datatype input = Single WebpackOptions | Multi "WebpackOptions list" js_object

datatype watch_arg = WatchOptions js_object | WatchOptionsList "js_object list"

datatype hook = Environment | AfterEnvironment | Initialize

type_synonym callback = string
type_synonym stats = string

text \<open>
  The closures of \<open>webpack.js\<close>:
  \<^item> \<open>UserCallback cb\<close> is the caller's \<open>callback\<close> itself (line 175);
  \<^item> \<open>RunCallback h cb\<close> is \<open>(err, stats) => { compiler.close(...) }\<close> of line 177;
  \<^item> \<open>CloseCallback cb err stats\<close> is \<open>err2 => { callback(err || err2, stats) }\<close> of
    line 178, with the \<open>err\<close> and \<open>stats\<close> it has captured;
  \<^item> \<open>TickCallback cb err\<close> is \<open>() => callback(err)\<close> of line 185.
\<close>

datatype continuation =
    UserCallback callback
  | RunCallback handle callback
  | CloseCallback callback "error js" "stats js"
  | TickCallback callback error

text \<open>The calls to collaborators, with their arguments.\<close>

datatype event =
    ValidateSchema input
  | Normalize WebpackOptions
  | BaseDefaults WebpackOptions
  | Construct "string option" WebpackOptions
  | EnvironmentPlugin "js_object option" Compiler
  | PluginCall string Compiler Compiler
  | PluginApply string Compiler
  | FullDefaults WebpackOptions
  | Hook hook Compiler
  | OptionsApply WebpackOptions Compiler
  | ConstructMulti "Compiler list" js_object
  | SetDependencies Compiler "string list"
  | Watch handle watch_arg continuation
  | Run handle continuation
  | Close handle continuation
  | CallbackInvoked callback "error js" "stats js"

text \<open>
  \<open>PluginCall p this arg\<close> is \<open>p.call(this, arg)\<close>; \<open>PluginApply p arg\<close> is
  \<open>p.apply(arg)\<close>; \<open>Hook h c\<close> is \<open>c.hooks.h.call()\<close>;
  \<open>CallbackInvoked cb err stats\<close> is the caller's \<open>callback(err, stats)\<close>.
\<close>

text \<open>
  \<open>pluginsAfter i arr\<close> is what the plugin array under iteration holds when the
  registration of its element at index \<open>i\<close> has returned, if it held \<open>arr\<close> when that
  element was called: a plugin may push onto the array, cut it short or overwrite its
  elements.
\<close>

record env =
  throws :: "event list \<Rightarrow> event \<Rightarrow> error option"
  pluginsAfter :: "nat \<Rightarrow> plugin list \<Rightarrow> plugin list"
  webpackOptionsSchemaCheck :: "WebpackOptions \<Rightarrow> bool"
  getNormalizedWebpackOptions :: "WebpackOptions \<Rightarrow> WebpackOptions"
  applyWebpackOptionsBaseDefaults :: "WebpackOptions \<Rightarrow> WebpackOptions"
  applyWebpackOptionsDefaults :: "WebpackOptions \<Rightarrow> WebpackOptions"

record world =
  trace :: "event list"
  warnings :: "string list"
  tickQueue :: "continuation list"

subsection \<open>Sequencing, throwing, calling\<close>

definition return :: "'a \<Rightarrow> world \<Rightarrow> (error + 'a) \<times> world" where
  "return a w = (Inr a, w)"

definition throw :: "error \<Rightarrow> world \<Rightarrow> (error + 'a) \<times> world" where
  "throw e w = (Inl e, w)"

definition andThen ::
  "(world \<Rightarrow> (error + 'a) \<times> world) \<Rightarrow> ('a \<Rightarrow> world \<Rightarrow> (error + 'b) \<times> world) \<Rightarrow>
   world \<Rightarrow> (error + 'b) \<times> world" where
  "andThen m f w = (case m w of (Inl e, w') \<Rightarrow> (Inl e, w') | (Inr a, w') \<Rightarrow> f a w')"

text \<open>A call to a collaborator: it is recorded, and it returns or throws.\<close>

definition call :: "env \<Rightarrow> event \<Rightarrow> world \<Rightarrow> (error + unit) \<times> world" where
  "call env ev w =
     (case throws env (trace w) ev of
        Some e \<Rightarrow> (Inl e, w\<lparr>trace := trace w @ [ev]\<rparr>)
      | None \<Rightarrow> (Inr (), w\<lparr>trace := trace w @ [ev]\<rparr>))"

text \<open>
  \<open>util.deprecate(() => {}, message, code)()\<close> of Node.js, under the default process
  flags: the warning is emitted unless a warning with this code has been emitted before
  in the process; the wrapped function does nothing.
\<close>

definition deprecate :: "string \<Rightarrow> world \<Rightarrow> (error + unit) \<times> world" where
  "deprecate code w =
     (if code \<in> set (warnings w) then (Inr (), w)
      else (Inr (), w\<lparr>warnings := warnings w @ [code]\<rparr>))"

definition DEP_WEBPACK_PRE_COMPILED_SCHEMA_INVALID :: string where
  "DEP_WEBPACK_PRE_COMPILED_SCHEMA_INVALID = ''DEP_WEBPACK_PRE_COMPILED_SCHEMA_INVALID''"

definition DEP_WEBPACK_WATCH_WITHOUT_CALLBACK :: string where
  "DEP_WEBPACK_WATCH_WITHOUT_CALLBACK = ''DEP_WEBPACK_WATCH_WITHOUT_CALLBACK''"

text \<open>\<open>process.nextTick(k)\<close>: the closure is queued.\<close>

definition nextTick :: "continuation \<Rightarrow> world \<Rightarrow> (error + unit) \<times> world" where
  "nextTick k w = (Inr (), w\<lparr>tickQueue := tickQueue w @ [k]\<rparr>)"

text \<open>Truthiness, and \<open>a || b\<close>, on the values that occur.\<close>

fun truthy :: "bool option \<Rightarrow> bool" where
  "truthy (Some b) = b"
| "truthy None = False"

fun js_or :: "error js \<Rightarrow> error js \<Rightarrow> error js" where
  "js_or (Val e) b = Val e"
| "js_or Undefined b = b"
| "js_or Null b = b"

fun orEmpty :: "js_object option \<Rightarrow> js_object" where
  "orEmpty (Some x) = x"
| "orEmpty None = emptyObject"

subsection \<open>\<open>createCompiler\<close>, lines 62 to 103\<close>

text \<open>
  Lines 81 to 87, for one plugin. A value without a callable \<open>apply\<close> makes the runtime
  throw a \<open>TypeError\<close> at \<open>plugin.apply(compiler)\<close>; the message is the engine's.
\<close>

fun registerPlugin :: "env \<Rightarrow> Compiler \<Rightarrow> plugin \<Rightarrow> world \<Rightarrow> (error + unit) \<times> world" where
  "registerPlugin env compiler (Callable p) = call env (PluginCall p compiler compiler)"
| "registerPlugin env compiler (WithApply p) = call env (PluginApply p compiler)"
| "registerPlugin env compiler (WithoutApply p) =
     throw (JSError ''TypeError'' ''plugin.apply is not a function'')"
| "registerPlugin env compiler Nullish =
     throw (JSError ''TypeError'' ''Cannot read properties of undefined'')"

text \<open>
  The \<open>length\<close> of a JavaScript array is at most \<open>2 ^ 32 - 1\<close>.
\<close>

definition maxArrayLength :: nat where
  "maxArrayLength = 4294967295"

definition arrayLength :: "'a list \<Rightarrow> nat" where
  "arrayLength arr = min (length arr) maxArrayLength"

text \<open>
  The loop of line 78. The iterator of \<open>for (const plugin of options.plugins)\<close> keeps the
  array and an index: at each turn it ends the loop when the index has reached the length
  that the array has by then, and otherwise hands out the element that the array holds at
  the index by then. \<open>registerPlugins env compiler i arr\<close> is the loop from index \<open>i\<close> on,
  with the array holding \<open>arr\<close>. The index grows at every turn and no array is longer than
  \<open>maxArrayLength\<close>, so the loop ends.
\<close>

function registerPlugins ::
  "env \<Rightarrow> Compiler \<Rightarrow> nat \<Rightarrow> plugin list \<Rightarrow> world \<Rightarrow> (error + unit) \<times> world" where
  "registerPlugins env compiler i arr =
     (if i < arrayLength arr then
        andThen (registerPlugin env compiler (arr ! i)) (\<lambda>_.
        registerPlugins env compiler (Suc i) (pluginsAfter env i arr))
      else return ())"
  by pat_completeness auto
termination
  by (relation "measure (\<lambda>(env, compiler, i, arr). maxArrayLength - i)")
     (auto simp: arrayLength_def)

definition createCompiler ::
  "env \<Rightarrow> WebpackOptions \<Rightarrow> world \<Rightarrow> (error + Compiler) \<times> world" where
  "createCompiler env rawOptions =
     andThen (call env (Normalize rawOptions)) (\<lambda>_.
     let options = getNormalizedWebpackOptions env rawOptions in
     andThen (call env (BaseDefaults options)) (\<lambda>_.
     let options = applyWebpackOptionsBaseDefaults env options in
     andThen (call env (Construct (o_context options) options)) (\<lambda>_.
     let compiler = \<lparr>c_context = o_context options, c_options = options\<rparr> in
     andThen (call env (EnvironmentPlugin (infrastructureLogging options) compiler)) (\<lambda>_.
     andThen (case plugins options of
                PluginsArray ps \<Rightarrow> registerPlugins env compiler 0 ps
              | PluginsUndefined \<Rightarrow> return ()
              | PluginsOther p \<Rightarrow> return ()) (\<lambda>_.
     andThen (call env (FullDefaults options)) (\<lambda>_.
     let options = applyWebpackOptionsDefaults env options;
         compiler = compiler\<lparr>c_options := options\<rparr> in
     andThen (call env (Hook Environment compiler)) (\<lambda>_.
     andThen (call env (Hook AfterEnvironment compiler)) (\<lambda>_.
     andThen (call env (OptionsApply options compiler)) (\<lambda>_.
     andThen (call env (Hook Initialize compiler)) (\<lambda>_.
     return compiler))))))))))"

subsection \<open>\<open>createMultiCompiler\<close>, lines 43 to 55\<close>

text \<open>\<open>childOptions.map(options => createCompiler(options))\<close>: the first throw ends it.\<close>

fun createCompilers ::
  "env \<Rightarrow> WebpackOptions list \<Rightarrow> world \<Rightarrow> (error + Compiler list) \<times> world" where
  "createCompilers env [] = return []"
| "createCompilers env (options # rest) =
     andThen (createCompiler env options) (\<lambda>compiler.
     andThen (createCompilers env rest) (\<lambda>others.
     return (compiler # others)))"

text \<open>
  The loop of lines 46 to 53. An array is truthy also when it is empty. What
  \<open>setDependencies\<close> does to the multi-compiler is the record of the declaration, as said
  above.
\<close>

fun setAllDependencies ::
  "env \<Rightarrow> MultiCompiler \<Rightarrow> Compiler list \<Rightarrow> world \<Rightarrow> (error + MultiCompiler) \<times> world" where
  "setAllDependencies env compiler [] = return compiler"
| "setAllDependencies env compiler (childCompiler # rest) =
     (case dependencies (c_options childCompiler) of
        Some deps \<Rightarrow>
          andThen (call env (SetDependencies childCompiler deps)) (\<lambda>_.
          setAllDependencies env
            (compiler\<lparr>mc_dependencies := mc_dependencies compiler @ [(childCompiler, deps)]\<rparr>)
            rest)
      | None \<Rightarrow> setAllDependencies env compiler rest)"

definition createMultiCompiler ::
  "env \<Rightarrow> WebpackOptions list \<Rightarrow> js_object \<Rightarrow> world \<Rightarrow> (error + MultiCompiler) \<times> world" where
  "createMultiCompiler env childOptions options =
     andThen (createCompilers env childOptions) (\<lambda>cs.
     andThen (call env (ConstructMulti cs options)) (\<lambda>_.
     setAllDependencies env
       \<lparr>compilers = cs, mc_options = options, mc_dependencies = []\<rparr> cs))"


subsection \<open>\<open>webpack\<close>, lines 128 to 201\<close>

fun asArray :: "input \<Rightarrow> WebpackOptions list" where
  "asArray (Multi options _) = options"
| "asArray (Single options) = [options]"

text \<open>Lines 131 to 138 of \<open>create\<close>.\<close>

definition schemaGate :: "env \<Rightarrow> input \<Rightarrow> world \<Rightarrow> (error + unit) \<times> world" where
  "schemaGate env options =
     (if \<not> list_all (webpackOptionsSchemaCheck env) (asArray options) then
        andThen (call env (ValidateSchema options)) (\<lambda>_.
        deprecate DEP_WEBPACK_PRE_COMPILED_SCHEMA_INVALID)
      else return ())"

text \<open>Lines 141 to 163 of \<open>create\<close>.\<close>

fun construct ::
  "env \<Rightarrow> input \<Rightarrow> world \<Rightarrow> (error + handle \<times> bool option \<times> watch_arg) \<times> world" where
  "construct env (Multi options multiOptions) =
     andThen (createMultiCompiler env options multiOptions) (\<lambda>compiler.
     return (AMultiCompiler compiler,
             Some (list_ex (\<lambda>options. truthy (watch options)) options),
             WatchOptionsList (map (\<lambda>options. orEmpty (watchOptions options)) options)))"
| "construct env (Single webpackOptions) =
     andThen (createCompiler env webpackOptions) (\<lambda>compiler.
     return (ACompiler compiler,
             watch webpackOptions,
             WatchOptions (orEmpty (watchOptions webpackOptions))))"

definition create ::
  "env \<Rightarrow> input \<Rightarrow> world \<Rightarrow> (error + handle \<times> bool option \<times> watch_arg) \<times> world" where
  "create env options = andThen (schemaGate env options) (\<lambda>_. construct env options)"

text \<open>
  The body of \<open>webpack\<close>, lines 170 to 200. The result is \<open>Inl\<close> for an error thrown to
  the caller, \<open>Inr None\<close> for \<open>null\<close>, \<open>Inr (Some h)\<close> for a compiler.
\<close>

definition webpack ::
  "env \<Rightarrow> input \<Rightarrow> callback option \<Rightarrow> world \<Rightarrow> (error + handle option) \<times> world" where
  "webpack env options callback w =
     (case callback of
        Some cb \<Rightarrow>
          (case andThen (create env options) (\<lambda>(compiler, watch, watchOptions).
                  andThen (if truthy watch
                           then call env (Watch compiler watchOptions (UserCallback cb))
                           else call env (Run compiler (RunCallback compiler cb))) (\<lambda>_.
                  return (Some compiler))) w of
             (Inr r, w') \<Rightarrow> (Inr r, w')
           | (Inl err, w') \<Rightarrow>
               andThen (nextTick (TickCallback cb err)) (\<lambda>_. return None) w')
      | None \<Rightarrow>
          andThen (create env options) (\<lambda>(compiler, watch, watchOptions).
          andThen (if truthy watch then deprecate DEP_WEBPACK_WATCH_WITHOUT_CALLBACK
                   else return ()) (\<lambda>_.
          return (Some compiler))) w)"

text \<open>
  What a closure of \<open>webpack.js\<close> does when the collaborator that holds it invokes it
  with \<open>(err, stats)\<close>. The closure given to \<open>close\<close> reads its first argument only; the
  one given to \<open>process.nextTick\<close> reads none.
\<close>

fun invoke ::
  "env \<Rightarrow> continuation \<Rightarrow> error js \<Rightarrow> stats js \<Rightarrow> world \<Rightarrow> (error + unit) \<times> world" where
  "invoke env (UserCallback cb) err stats = call env (CallbackInvoked cb err stats)"
| "invoke env (RunCallback compiler cb) err stats =
     call env (Close compiler (CloseCallback cb err stats))"
| "invoke env (CloseCallback cb err stats) err2 _ =
     call env (CallbackInvoked cb (js_or err err2) stats)"
| "invoke env (TickCallback cb err) _ _ =
     call env (CallbackInvoked cb (Val err) Undefined)"

text \<open>One turn of the \<open>process.nextTick\<close> queue.\<close>

definition runTick :: "env \<Rightarrow> world \<Rightarrow> (error + unit) \<times> world" where
  "runTick env w =
     (case tickQueue w of
        [] \<Rightarrow> (Inr (), w)
      | k # ks \<Rightarrow> invoke env k Undefined Undefined (w\<lparr>tickQueue := ks\<rparr>))"

section \<open>Vocabulary of the claims\<close>

text \<open>
  A straight-line run of collaborator calls, which the first throw ends; and that none of
  the calls throws, each one asked after the ones before it.
\<close>

fun perform :: "env \<Rightarrow> event list \<Rightarrow> world \<Rightarrow> (error + unit) \<times> world" where
  "perform env [] = return ()"
| "perform env (ev # evs) = andThen (call env ev) (\<lambda>_. perform env evs)"

fun quiet :: "env \<Rightarrow> event list \<Rightarrow> event list \<Rightarrow> bool" where
  "quiet env history [] = True"
| "quiet env history (ev # evs) =
     (throws env history ev = None \<and> quiet env (history @ [ev]) evs)"

text \<open>
  The values that flow through \<open>createCompiler\<close>: the options after the base pass and
  after the full pass, the compiler as the plugins receive it (line 68) and the compiler
  that is returned, whose options object has been through the full pass.
\<close>

definition baseOptions :: "env \<Rightarrow> WebpackOptions \<Rightarrow> WebpackOptions" where
  "baseOptions env rawOptions =
     applyWebpackOptionsBaseDefaults env (getNormalizedWebpackOptions env rawOptions)"

definition fullOptions :: "env \<Rightarrow> WebpackOptions \<Rightarrow> WebpackOptions" where
  "fullOptions env rawOptions = applyWebpackOptionsDefaults env (baseOptions env rawOptions)"

definition freshCompiler :: "env \<Rightarrow> WebpackOptions \<Rightarrow> Compiler" where
  "freshCompiler env rawOptions =
     \<lparr>c_context = o_context (baseOptions env rawOptions),
      c_options = baseOptions env rawOptions\<rparr>"

definition builtCompiler :: "env \<Rightarrow> WebpackOptions \<Rightarrow> Compiler" where
  "builtCompiler env rawOptions =
     \<lparr>c_context = o_context (baseOptions env rawOptions),
      c_options = fullOptions env rawOptions\<rparr>"

text \<open>
  The calls of lines 65 to 74 and of lines 91 to 100.
\<close>

definition beforePlugins :: "env \<Rightarrow> WebpackOptions \<Rightarrow> event list" where
  "beforePlugins env rawOptions =
     [Normalize rawOptions,
      BaseDefaults (getNormalizedWebpackOptions env rawOptions),
      Construct (o_context (baseOptions env rawOptions)) (baseOptions env rawOptions),
      EnvironmentPlugin (infrastructureLogging (baseOptions env rawOptions))
        (freshCompiler env rawOptions)]"

definition afterPlugins :: "env \<Rightarrow> WebpackOptions \<Rightarrow> event list" where
  "afterPlugins env rawOptions =
     [FullDefaults (baseOptions env rawOptions),
      Hook Environment (builtCompiler env rawOptions),
      Hook AfterEnvironment (builtCompiler env rawOptions),
      OptionsApply (fullOptions env rawOptions) (builtCompiler env rawOptions),
      Hook Initialize (builtCompiler env rawOptions)]"

text \<open>
  \<open>Array.isArray\<close> on the \<open>plugins\<close> field, and what the array holds when the loop of
  line 78 starts on it: nothing when the field is no array.
\<close>

fun isArray :: "plugins_value \<Rightarrow> bool" where
  "isArray (PluginsArray ps) = True"
| "isArray PluginsUndefined = False"
| "isArray (PluginsOther p) = False"

definition userPlugins :: "env \<Rightarrow> WebpackOptions \<Rightarrow> plugin list" where
  "userPlugins env rawOptions =
     (case plugins (baseOptions env rawOptions) of
        PluginsArray ps \<Rightarrow> ps
      | PluginsUndefined \<Rightarrow> []
      | PluginsOther p \<Rightarrow> [])"

text \<open>
  A plugin that lines 81 to 87 can register, and the call that registers it: a function
  is called with the compiler as receiver and as argument, any other plugin has its
  \<open>apply\<close> called with the compiler.
\<close>

fun wellShaped :: "plugin \<Rightarrow> bool" where
  "wellShaped (Callable p) = True"
| "wellShaped (WithApply p) = True"
| "wellShaped (WithoutApply p) = False"
| "wellShaped Nullish = False"

fun registration :: "Compiler \<Rightarrow> plugin \<Rightarrow> event list" where
  "registration c (Callable p) = [PluginCall p c c]"
| "registration c (WithApply p) = [PluginApply p c]"
| "registration c (WithoutApply p) = []"
| "registration c Nullish = []"

definition registrations :: "Compiler \<Rightarrow> plugin list \<Rightarrow> event list" where
  "registrations c ps = concat (map (registration c) ps)"

text \<open>
  The walk of the loop of line 78 over the live array, from index \<open>i\<close> with the array
  holding \<open>arr\<close>, for as long as the registration calls return: \<open>schedule\<close> is the
  registration calls it makes, in order, up to the end of the array or to the first
  element it reads that cannot be registered; \<open>blockedBy\<close> is that element, if the walk
  comes to one.
\<close>

function schedule :: "env \<Rightarrow> Compiler \<Rightarrow> nat \<Rightarrow> plugin list \<Rightarrow> event list" where
  "schedule env c i arr =
     (if i < arrayLength arr \<and> wellShaped (arr ! i)
      then registration c (arr ! i) @ schedule env c (Suc i) (pluginsAfter env i arr)
      else [])"
  by pat_completeness auto
termination
  by (relation "measure (\<lambda>(env, c, i, arr). maxArrayLength - i)")
     (auto simp: arrayLength_def)

function blockedBy :: "env \<Rightarrow> nat \<Rightarrow> plugin list \<Rightarrow> plugin option" where
  "blockedBy env i arr =
     (if i < arrayLength arr
      then if wellShaped (arr ! i)
           then blockedBy env (Suc i) (pluginsAfter env i arr)
           else Some (arr ! i)
      else None)"
  by pat_completeness auto
termination
  by (relation "measure (\<lambda>(env, i, arr). maxArrayLength - i)")
     (auto simp: arrayLength_def)




text \<open>
  Kinds of events: the registration of a user plugin; the firing of a hook; any call of
  the construction of a compiler or multi-compiler; the slow validator; what drives a
  compiler; the invocation of the caller's callback.
\<close>

fun isRegistration :: "event \<Rightarrow> bool" where
  "isRegistration (PluginCall p this arg) = True"
| "isRegistration (PluginApply p arg) = True"
| "isRegistration _ = False"

fun isHook :: "event \<Rightarrow> bool" where
  "isHook (Hook h c) = True"
| "isHook _ = False"

fun isConstruction :: "event \<Rightarrow> bool" where
  "isConstruction (ValidateSchema i) = False"
| "isConstruction (Watch h a k) = False"
| "isConstruction (Run h k) = False"
| "isConstruction (Close h k) = False"
| "isConstruction (CallbackInvoked cb e s) = False"
| "isConstruction _ = True"

fun isValidation :: "event \<Rightarrow> bool" where
  "isValidation (ValidateSchema i) = True"
| "isValidation _ = False"

fun isStarted :: "event \<Rightarrow> bool" where
  "isStarted (Watch h a k) = True"
| "isStarted (Run h k) = True"
| "isStarted (Close h k) = True"
| "isStarted _ = False"

fun isReport :: "event \<Rightarrow> bool" where
  "isReport (CallbackInvoked cb e s) = True"
| "isReport _ = False"

text \<open>
  The events recorded between two worlds; that only events of one kind were recorded and
  nothing else changed; that an error was thrown by the call recorded last; the class
  name of the error that a run ended with, if it ended with one.
\<close>

definition news :: "world \<Rightarrow> world \<Rightarrow> event list" where
  "news w w' = drop (length (trace w)) (trace w')"

definition logs :: "(event \<Rightarrow> bool) \<Rightarrow> world \<Rightarrow> world \<Rightarrow> bool" where
  "logs P w w' \<longleftrightarrow>
     (\<exists>evs. trace w' = trace w @ evs \<and> list_all P evs) \<and>
     warnings w' = warnings w \<and> tickQueue w' = tickQueue w"

definition thrownByLast :: "env \<Rightarrow> world \<Rightarrow> error \<Rightarrow> bool" where
  "thrownByLast env w e \<longleftrightarrow>
     trace w \<noteq> [] \<and> throws env (butlast (trace w)) (last (trace w)) = Some e"


text \<open>
  The watch flag that the input resolves to (lines 152 and 160), and the warnings of the
  process after \<open>util.deprecate\<close> has been called with a code.
\<close>

fun watchRequested :: "input \<Rightarrow> bool" where
  "watchRequested (Multi cfgs multiOptions) = list_ex (\<lambda>cfg. watch cfg = Some True) cfgs"
| "watchRequested (Single cfg) = (watch cfg = Some True)"

definition warnedOnce :: "string \<Rightarrow> string list \<Rightarrow> string list" where
  "warnedOnce code ws = (if code \<in> set ws then ws else ws @ [code])"

subsection \<open>Sample inputs\<close>

text \<open>
  An environment in which no collaborator throws, the fast predicate accepts everything
  and the base pass fills in the context; one whose fast predicate rejects a configuration
  without a name while the slow validator accepts it; one whose slow validator rejects
  as well; one in which every hook throws; one in which the plugin \<open>swapper\<close> swaps the two
  elements after the first of the plugin array, \<open>fixer\<close> cuts the array down to its first
  element and \<open>adder\<close> pushes a plugin onto it.
\<close>

definition calmEnv :: env where
  "calmEnv =
     \<lparr>throws = (\<lambda>history ev. None),
      pluginsAfter = (\<lambda>i arr. arr),
      webpackOptionsSchemaCheck = (\<lambda>options. True),
      getNormalizedWebpackOptions = (\<lambda>options. options),
      applyWebpackOptionsBaseDefaults =
        (\<lambda>options. if o_context options = None then options\<lparr>o_context := Some ''/cwd''\<rparr>
                   else options),
      applyWebpackOptionsDefaults = (\<lambda>options. options)\<rparr>"

definition doubtfulEnv :: env where
  "doubtfulEnv = calmEnv\<lparr>webpackOptionsSchemaCheck := (\<lambda>options. name options \<noteq> None)\<rparr>"

definition flakyEnv :: env where
  "flakyEnv =
     calmEnv\<lparr>throws :=
       (\<lambda>history ev. if isHook ev then Some (JSError ''Error'' ''hook failed'') else None)\<rparr>"

fun meddle :: "plugin \<Rightarrow> plugin list \<Rightarrow> plugin list" where
  "meddle (Callable p) arr =
     (if p = ''swapper'' then
        (case arr of a # b # c # rest \<Rightarrow> a # c # b # rest | _ \<Rightarrow> arr)
      else if p = ''fixer'' then take 1 arr
      else if p = ''adder'' then arr @ [WithApply ''late'']
      else arr)"
| "meddle p arr = arr"

definition meddlingEnv :: env where
  "meddlingEnv = calmEnv\<lparr>pluginsAfter := (\<lambda>i arr. meddle (arr ! i) arr)\<rparr>"

definition strictEnv :: env where
  "strictEnv =
     doubtfulEnv\<lparr>throws :=
       (\<lambda>history ev. if isValidation ev
                      then Some (JSError ''ValidationError'' ''Invalid configuration object'')
                      else None)\<rparr>"

text \<open>
  Configurations: with two plugins; with an object that has no \<open>apply\<close> in second
  place of the plugin list; with \<open>swapper\<close> before two plugins; with \<open>adder\<close> alone; with
  \<open>fixer\<close> before an object that has no \<open>apply\<close>; with a single plugin object in place
  of the list; two of which the second depends on the first; one in watch mode. Aggregate
  options. The world of a process that has done nothing yet.
\<close>

definition blankOptions :: WebpackOptions where
  "blankOptions =
     \<lparr>name = None, o_context = None, infrastructureLogging = None,
      plugins = PluginsUndefined, dependencies = None, watch = None, watchOptions = None\<rparr>"

definition appOptions :: WebpackOptions where
  "appOptions =
     blankOptions\<lparr>name := Some ''app'',
       plugins := PluginsArray [Callable ''banner'', WithApply ''TerserPlugin'']\<rparr>"

definition brokenOptions :: WebpackOptions where
  "brokenOptions =
     blankOptions\<lparr>name := Some ''broken'',
       plugins := PluginsArray
         [Callable ''banner'', WithoutApply ''notAPlugin'', WithApply ''TerserPlugin'']\<rparr>"

definition swappedOptions :: WebpackOptions where
  "swappedOptions =
     blankOptions\<lparr>name := Some ''swapped'',
       plugins := PluginsArray
         [Callable ''swapper'', WithApply ''first'', WithApply ''second'']\<rparr>"

definition grownOptions :: WebpackOptions where
  "grownOptions =
     blankOptions\<lparr>name := Some ''grown'', plugins := PluginsArray [Callable ''adder'']\<rparr>"


definition soloOptions :: WebpackOptions where
  "soloOptions =
     blankOptions\<lparr>name := Some ''solo'', plugins := PluginsOther (WithApply ''TerserPlugin'')\<rparr>"

definition libOptions :: WebpackOptions where
  "libOptions = blankOptions\<lparr>name := Some ''lib''\<rparr>"

definition siteOptions :: WebpackOptions where
  "siteOptions = blankOptions\<lparr>name := Some ''site'', dependencies := Some [''lib'']\<rparr>"

definition watchingOptions :: WebpackOptions where
  "watchingOptions =
     blankOptions\<lparr>name := Some ''dev'', watch := Some True,
       watchOptions := Some [(''poll'', ''1000'')]\<rparr>"

definition twoJobs :: js_object where
  "twoJobs = [(''parallelism'', ''2'')]"

definition emptyWorld :: world where
  "emptyWorld = \<lparr>trace = [], warnings = [], tickQueue = []\<rparr>"

section \<open>Lemmas\<close>

lemma andThen_Inr_iff:
  "andThen m f w = (Inr b, w') \<longleftrightarrow> (\<exists>a w1. m w = (Inr a, w1) \<and> f a w1 = (Inr b, w'))"
  by (auto simp: andThen_def split: prod.splits sum.splits)

lemma andThen_Inl_iff:
  "andThen m f w = (Inl e, w') \<longleftrightarrow>
     m w = (Inl e, w') \<or> (\<exists>a w1. m w = (Inr a, w1) \<and> f a w1 = (Inl e, w'))"
  by (auto simp: andThen_def split: prod.splits sum.splits)

lemma andThen_cases:
  assumes "andThen m f w = (r, w')"
  obtains (fails) e where "m w = (Inl e, w')" "r = Inl e"
        | (goes) a w1 where "m w = (Inr a, w1)" "f a w1 = (r, w')"
  using assms by (auto simp: andThen_def split: prod.splits sum.splits)

lemma andThen_assoc: "andThen (andThen m f) g = andThen m (\<lambda>a. andThen (f a) g)"
  by (auto simp: andThen_def fun_eq_iff split: prod.splits sum.splits)

lemma andThen_return: "andThen (return a) f = f a"
  by (auto simp: andThen_def return_def fun_eq_iff)

lemma andThen_throw: "andThen (throw e) f = throw e"
  by (auto simp: andThen_def throw_def fun_eq_iff)

lemma call_world: "call env ev w = (r, w') \<Longrightarrow> w' = w\<lparr>trace := trace w @ [ev]\<rparr>"
  by (auto simp: call_def split: option.splits)

lemma call_Inr_iff:
  "call env ev w = (Inr u, w') \<longleftrightarrow>
     throws env (trace w) ev = None \<and> w' = w\<lparr>trace := trace w @ [ev]\<rparr>"
  by (auto simp: call_def split: option.splits)

lemma call_Inl_iff:
  "call env ev w = (Inl e, w') \<longleftrightarrow>
     throws env (trace w) ev = Some e \<and> w' = w\<lparr>trace := trace w @ [ev]\<rparr>"
  by (auto simp: call_def split: option.splits)

lemma logs_refl: "logs P w w"
  by (simp add: logs_def)

lemma logs_trans: "logs P w w1 \<Longrightarrow> logs P w1 w2 \<Longrightarrow> logs P w w2"
  by (auto simp: logs_def)

lemma logs_call: "P ev \<Longrightarrow> call env ev w = (r, w') \<Longrightarrow> logs P w w'"
  by (auto simp: logs_def dest!: call_world)

lemma logs_andThen:
  assumes "andThen m f w = (r, w')"
    and "\<And>r1 w1. m w = (r1, w1) \<Longrightarrow> logs P w w1"
    and "\<And>a w1 r2 w2. m w = (Inr a, w1) \<Longrightarrow> f a w1 = (r2, w2) \<Longrightarrow> logs P w1 w2"
  shows "logs P w w'"
  using assms(1)
proof (cases rule: andThen_cases)
  case (fails e)
  then show ?thesis using assms(2) by blast
next
  case (goes a w1)
  then show ?thesis using assms(2,3) logs_trans by blast
qed

lemma logs_news: "logs P w w' \<Longrightarrow> trace w' = trace w @ news w w' \<and> list_all P (news w w')"
  by (auto simp: logs_def news_def)

lemma list_all_prefix: "prefix xs ys \<Longrightarrow> list_all P ys \<Longrightarrow> list_all P xs"
  by (auto simp: prefix_def)

lemma perform_append:
  "perform env (xs @ ys) = andThen (perform env xs) (\<lambda>_. perform env ys)"
  by (induction xs) (simp_all add: andThen_return andThen_assoc)

lemma perform_Inr_iff:
  "perform env evs w = (Inr u, w') \<longleftrightarrow>
     quiet env (trace w) evs \<and> w' = w\<lparr>trace := trace w @ evs\<rparr>"
  by (induction evs arbitrary: w) (auto simp: return_def andThen_Inr_iff call_Inr_iff)

lemma perform_Inl:
  "perform env evs w = (Inl e, w') \<Longrightarrow>
     \<exists>k<length evs. quiet env (trace w) (take k evs) \<and>
       throws env (trace w @ take k evs) (evs ! k) = Some e \<and>
       w' = w\<lparr>trace := trace w @ take (Suc k) evs\<rparr>"
proof (induction evs arbitrary: w)
  case Nil
  then show ?case by (simp add: return_def)
next
  case (Cons ev evs)
  from Cons.prems have "andThen (call env ev) (\<lambda>_. perform env evs) w = (Inl e, w')"
    by simp
  then show ?case
  proof (cases rule: andThen_cases)
    case (fails e')
    then show ?thesis
      by (intro exI[of _ 0]) (simp add: call_Inl_iff)
  next
    case (goes a w1)
    from goes(1) have w1: "throws env (trace w) ev = None" "w1 = w\<lparr>trace := trace w @ [ev]\<rparr>"
      by (simp_all add: call_Inr_iff)
    from Cons.IH[OF goes(2)] obtain k where k: "k < length evs"
      "quiet env (trace w1) (take k evs)"
      "throws env (trace w1 @ take k evs) (evs ! k) = Some e"
      "w' = w1\<lparr>trace := trace w1 @ take (Suc k) evs\<rparr>" by blast
    show ?thesis
      using k w1 by (intro exI[of _ "Suc k"]) simp
  qed
qed

lemma perform_outcome:
  assumes "perform env evs w = (r, w')"
  shows "w' = w\<lparr>trace := trace w @ news w w'\<rparr> \<and> prefix (news w w') evs \<and>
     (case r of Inr u \<Rightarrow> news w w' = evs \<and> quiet env (trace w) evs
      | Inl e \<Rightarrow> news w w' \<noteq> [] \<and> thrownByLast env w' e)"
proof (cases r)
  case (Inl e)
  with assms obtain k where k: "k < length evs"
    "throws env (trace w @ take k evs) (evs ! k) = Some e"
    "w' = w\<lparr>trace := trace w @ take (Suc k) evs\<rparr>"
    using perform_Inl by blast
  have n: "news w w' = take (Suc k) evs"
    by (simp add: news_def k(3))
  have t: "trace w' = trace w @ take k evs @ [evs ! k]"
    using k(1) by (simp add: k(3) take_Suc_conv_app_nth)
  have "thrownByLast env w' e"
    unfolding thrownByLast_def t using k(2) by (simp add: butlast_append)
  moreover have "news w w' \<noteq> []"
    using k(1) by (cases evs) (simp_all add: n)
  ultimately show ?thesis
    using Inl n k(3) by (simp add: take_is_prefix)
next
  case (Inr u)
  with assms have "quiet env (trace w) evs" "w' = w\<lparr>trace := trace w @ evs\<rparr>"
    by (simp_all add: perform_Inr_iff)
  then show ?thesis
    using Inr by (simp add: news_def)
qed

declare registerPlugins.simps [simp del] schedule.simps [simp del] blockedBy.simps [simp del]

lemma andThen_unit: "andThen m return = m"
  by (auto simp: andThen_def return_def fun_eq_iff split: prod.splits sum.splits)

lemma registerPlugin_malformed:
  "\<not> wellShaped bad \<Longrightarrow>
     \<exists>msg. registerPlugin env c bad = throw (JSError ''TypeError'' msg)"
  by (cases bad) auto

lemma registerPlugin_wellShaped:
  "wellShaped p \<Longrightarrow> registerPlugin env c p = perform env (registration c p)"
  by (cases p) (simp_all add: andThen_unit)

lemma blockedBy_malformed:
  "blockedBy env i arr = Some bad \<Longrightarrow> \<not> wellShaped bad"
proof (induction env i arr rule: blockedBy.induct)
  case (1 env i arr)
  then show ?case
    by (subst (asm) (2) blockedBy.simps) (auto split: if_splits)
qed

lemma schedule_registrations:
  "list_all isRegistration (schedule env c i arr)"
proof (induction env c i arr rule: schedule.induct)
  case (1 env c i arr)
  show ?case
  proof (cases "i < arrayLength arr \<and> wellShaped (arr ! i)")
    case True
    then have "list_all isRegistration (registration c (arr ! i))"
      by (cases "arr ! i") simp_all
    with True 1 show ?thesis
      by (subst schedule.simps) simp
  next
    case False
    then show ?thesis
      by (subst schedule.simps) auto
  qed
qed

lemma registerPlugins_normal_form:
  "registerPlugins env c i arr =
     andThen (perform env (schedule env c i arr)) (\<lambda>_.
       case blockedBy env i arr of
         None \<Rightarrow> return ()
       | Some bad \<Rightarrow> registerPlugin env c bad)"
proof (induction env c i arr rule: registerPlugins.induct)
  case (1 env c i arr)
  show ?case
  proof (cases "i < arrayLength arr")
    case False
    then show ?thesis
      by (simp add: registerPlugins.simps[of env c i arr] schedule.simps[of env c i arr]
          blockedBy.simps[of env i arr] andThen_return)
  next
    case True
    show ?thesis
    proof (cases "wellShaped (arr ! i)")
      case False
      then obtain msg where
        "registerPlugin env c (arr ! i) = throw (JSError ''TypeError'' msg)"
        using registerPlugin_malformed by blast
      with True False show ?thesis
        by (simp add: registerPlugins.simps[of env c i arr] schedule.simps[of env c i arr]
            blockedBy.simps[of env i arr] andThen_return andThen_throw)
    next
      case wellShaped: True
      note IH = 1[OF True]
      from True wellShaped show ?thesis
        by (simp add: registerPlugins.simps[of env c i arr] schedule.simps[of env c i arr]
            blockedBy.simps[of env i arr] registerPlugin_wellShaped IH perform_append
            andThen_assoc)
    qed
  qed
qed

lemma createCompiler_normal_form:
  "createCompiler env rawOptions =
     andThen (perform env
       [Normalize rawOptions,
        BaseDefaults (getNormalizedWebpackOptions env rawOptions),
        Construct (o_context (baseOptions env rawOptions)) (baseOptions env rawOptions),
        EnvironmentPlugin (infrastructureLogging (baseOptions env rawOptions))
          (freshCompiler env rawOptions)]) (\<lambda>_.
     andThen (case plugins (baseOptions env rawOptions) of
                PluginsArray ps \<Rightarrow> registerPlugins env (freshCompiler env rawOptions) 0 ps
              | PluginsUndefined \<Rightarrow> return ()
              | PluginsOther p \<Rightarrow> return ()) (\<lambda>_.
     andThen (perform env
       [FullDefaults (baseOptions env rawOptions),
        Hook Environment (builtCompiler env rawOptions),
        Hook AfterEnvironment (builtCompiler env rawOptions),
        OptionsApply (fullOptions env rawOptions) (builtCompiler env rawOptions),
        Hook Initialize (builtCompiler env rawOptions)]) (\<lambda>_.
     return (builtCompiler env rawOptions))))"
  unfolding createCompiler_def Let_def baseOptions_def fullOptions_def freshCompiler_def
    builtCompiler_def
  by (simp add: andThen_assoc andThen_return)

lemma registerPlugins_empty: "registerPlugins env c 0 [] = return ()"
  by (simp add: registerPlugins.simps[of env c 0 "[]"] arrayLength_def)

lemma createCompiler_shape:
  "createCompiler env rawOptions =
     (case blockedBy env 0 (userPlugins env rawOptions) of
        None \<Rightarrow>
          andThen (perform env
            (beforePlugins env rawOptions @
             schedule env (freshCompiler env rawOptions) 0 (userPlugins env rawOptions) @
             afterPlugins env rawOptions)) (\<lambda>_.
          return (builtCompiler env rawOptions))
      | Some bad \<Rightarrow>
          andThen (perform env
            (beforePlugins env rawOptions @
             schedule env (freshCompiler env rawOptions) 0 (userPlugins env rawOptions))) (\<lambda>_.
          andThen (registerPlugin env (freshCompiler env rawOptions) bad) (\<lambda>_.
          return (builtCompiler env rawOptions))))"
proof -
  let ?c = "freshCompiler env rawOptions"
  let ?ps = "userPlugins env rawOptions"
  let ?S = "schedule env ?c 0 ?ps"
  have step: "(case plugins (baseOptions env rawOptions) of
                 PluginsArray ps \<Rightarrow> registerPlugins env ?c 0 ps
               | PluginsUndefined \<Rightarrow> return ()
               | PluginsOther p \<Rightarrow> return ()) = registerPlugins env ?c 0 ?ps"
    by (cases "plugins (baseOptions env rawOptions)")
       (simp_all add: userPlugins_def registerPlugins_empty)
  have mid: "createCompiler env rawOptions =
     andThen (perform env (beforePlugins env rawOptions @ ?S)) (\<lambda>_.
     andThen (case blockedBy env 0 ?ps of
                None \<Rightarrow> return ()
              | Some bad \<Rightarrow> registerPlugin env ?c bad) (\<lambda>_.
     andThen (perform env (afterPlugins env rawOptions)) (\<lambda>_.
     return (builtCompiler env rawOptions))))"
    unfolding createCompiler_normal_form step
    by (simp add: registerPlugins_normal_form[of env ?c 0 ?ps] perform_append andThen_assoc
        andThen_return beforePlugins_def afterPlugins_def)
  show ?thesis
  proof (cases "blockedBy env 0 ?ps")
    case None
    have "perform env (beforePlugins env rawOptions @ ?S @ afterPlugins env rawOptions) =
          andThen (perform env (beforePlugins env rawOptions @ ?S)) (\<lambda>_.
            perform env (afterPlugins env rawOptions))"
      using perform_append[of env "beforePlugins env rawOptions @ ?S"
          "afterPlugins env rawOptions"]
      by simp
    then show ?thesis
      by (simp only: mid None option.case andThen_return andThen_assoc)
  next
    case (Some bad)
    then have "\<not> wellShaped bad"
      by (rule blockedBy_malformed)
    then obtain msg where "registerPlugin env ?c bad = throw (JSError ''TypeError'' msg)"
      using registerPlugin_malformed by blast
    then show ?thesis
      by (simp only: mid Some option.case andThen_throw)
  qed
qed

lemma createCompiler_outcome:
  assumes "createCompiler env rawOptions w = (r, w')"
  shows "w' = w\<lparr>trace := trace w @ news w w'\<rparr> \<and>
     prefix (news w w')
       (beforePlugins env rawOptions @
        schedule env (freshCompiler env rawOptions) 0 (userPlugins env rawOptions) @
        afterPlugins env rawOptions) \<and>
     (case r of
        Inr c \<Rightarrow>
          c = builtCompiler env rawOptions \<and>
          blockedBy env 0 (userPlugins env rawOptions) = None \<and>
          news w w' =
            beforePlugins env rawOptions @
            schedule env (freshCompiler env rawOptions) 0 (userPlugins env rawOptions) @
            afterPlugins env rawOptions
      | Inl e \<Rightarrow>
          news w w' \<noteq> [] \<and> thrownByLast env w' e \<or>
          (\<exists>msg. e = JSError ''TypeError'' msg) \<and>
          blockedBy env 0 (userPlugins env rawOptions) \<noteq> None \<and>
          news w w' =
            beforePlugins env rawOptions @
            schedule env (freshCompiler env rawOptions) 0 (userPlugins env rawOptions))"
proof -
  let ?c = "freshCompiler env rawOptions"
  let ?ps = "userPlugins env rawOptions"
  let ?B = "beforePlugins env rawOptions"
  let ?S = "schedule env ?c 0 ?ps"
  let ?A = "afterPlugins env rawOptions"
  show ?thesis
  proof (cases "blockedBy env 0 ?ps")
    case None
    from assms None have
      "andThen (perform env (?B @ ?S @ ?A)) (\<lambda>_. return (builtCompiler env rawOptions)) w
         = (r, w')"
      by (simp add: createCompiler_shape)
    then show ?thesis
    proof (cases rule: andThen_cases)
      case (fails e)
      note out = perform_outcome[OF fails(1), unfolded sum.case]
      show ?thesis
        unfolding fails(2) sum.case using out by blast
    next
      case (goes a w1)
      from goes(2) have r: "r = Inr (builtCompiler env rawOptions)" and w1: "w1 = w'"
        by (simp_all add: return_def)
      note out = perform_outcome[OF goes(1), unfolded w1 sum.case]
      show ?thesis
        unfolding r sum.case using out None by blast
    qed
  next
    case (Some bad)
    then have bad: "\<not> wellShaped bad"
      by (rule blockedBy_malformed)
    from Some have blocked: "blockedBy env 0 ?ps \<noteq> None"
      by simp
    from bad obtain msg where msg: "registerPlugin env ?c bad = throw (JSError ''TypeError'' msg)"
      using registerPlugin_malformed by blast
    from assms Some msg have
      "andThen (perform env (?B @ ?S)) (\<lambda>_. throw (JSError ''TypeError'' msg)) w = (r, w')"
      by (simp add: createCompiler_shape andThen_throw)
    then show ?thesis
    proof (cases rule: andThen_cases)
      case (fails e)
      note out = perform_outcome[OF fails(1), unfolded sum.case]
      from out have "prefix (news w w') (?B @ ?S)" by blast
      then have "prefix (news w w') ((?B @ ?S) @ ?A)"
        by (rule prefix_prefix)
      then have "prefix (news w w') (?B @ ?S @ ?A)" by simp
      then show ?thesis
        unfolding fails(2) sum.case using out by blast
    next
      case (goes a w1)
      from goes(2) have r: "r = Inl (JSError ''TypeError'' msg)" and w1: "w1 = w'"
        by (simp_all add: throw_def)
      note out = perform_outcome[OF goes(1), unfolded w1 sum.case]
      from out have n: "news w w' = ?B @ ?S" by blast
      have "prefix (?B @ ?S) ((?B @ ?S) @ ?A)"
        by (rule prefixI) simp
      then have "prefix (news w w') (?B @ ?S @ ?A)"
        using n by simp
      then show ?thesis
        unfolding r sum.case using out blocked by blast
    qed
  qed
qed

lemma isConstruction_pipeline:
  "list_all isConstruction
     (beforePlugins env rawOptions @ schedule env c i arr @ afterPlugins env rawOptions)"
proof -
  have "isConstruction ev" if "isRegistration ev" for ev
    using that by (cases ev) simp_all
  then have "list_all isConstruction (schedule env c i arr)"
    using schedule_registrations[of env c i arr] by (auto simp: list_all_iff)
  then show ?thesis
    by (simp add: beforePlugins_def afterPlugins_def)
qed

lemma createCompiler_logs:
  assumes "createCompiler env rawOptions w = (r, w')"
  shows "logs isConstruction w w'"
proof -
  from createCompiler_outcome[OF assms] have
    w': "w' = w\<lparr>trace := trace w @ news w w'\<rparr>" and
    p: "prefix (news w w')
       (beforePlugins env rawOptions @
        schedule env (freshCompiler env rawOptions) 0 (userPlugins env rawOptions) @
        afterPlugins env rawOptions)"
    by simp_all
  from p have "list_all isConstruction (news w w')"
    using isConstruction_pipeline list_all_prefix by blast
  moreover from w' have "trace w' = trace w @ news w w'" "warnings w' = warnings w"
    "tickQueue w' = tickQueue w"
    by (metis world.select_convs(1) world.surjective world.update_convs(1),
        metis world.select_convs(2) world.surjective world.update_convs(1),
        metis world.select_convs(3) world.surjective world.update_convs(1))
  ultimately show ?thesis
    unfolding logs_def by blast
qed

lemmas sample_defs = calmEnv_def blankOptions_def appOptions_def emptyWorld_def

lemmas run_defs = createCompiler_def andThen_def call_def return_def throw_def Let_def
  registerPlugins.simps arrayLength_def maxArrayLength_def

lemma filter_isRegistration_pipeline:
  "filter isRegistration
     (beforePlugins env rawOptions @ schedule env c i arr @ afterPlugins env rawOptions) =
   schedule env c i arr"
proof -
  have "filter isRegistration (schedule env c i arr) = schedule env c i arr"
    using schedule_registrations[of env c i arr] by (simp add: list_all_iff)
  then show ?thesis
    by (simp add: beforePlugins_def afterPlugins_def)
qed

lemma userPlugins_array:
  "plugins (baseOptions env rawOptions) = PluginsArray ps \<Longrightarrow> userPlugins env rawOptions = ps"
  by (simp add: userPlugins_def)

lemma userPlugins_no_array:
  "\<not> isArray (plugins (baseOptions env rawOptions)) \<Longrightarrow> userPlugins env rawOptions = []"
  by (cases "plugins (baseOptions env rawOptions)") (simp_all add: userPlugins_def)

lemma walk_empty: "schedule env c 0 [] = [] \<and> blockedBy env 0 [] = None"
  by (simp add: schedule.simps[of env c 0 "[]"] blockedBy.simps[of env 0 "[]"] arrayLength_def)

lemma registered_prefix:
  assumes "createCompiler env rawOptions w = (r, w')"
  shows "prefix (filter isRegistration (news w w'))
     (schedule env (freshCompiler env rawOptions) 0 (userPlugins env rawOptions))"
proof -
  from createCompiler_outcome[OF assms] have
    "prefix (news w w')
       (beforePlugins env rawOptions @
        schedule env (freshCompiler env rawOptions) 0 (userPlugins env rawOptions) @
        afterPlugins env rawOptions)"
    by blast
  from filter_mono_prefix[OF this, of isRegistration] show ?thesis
    by (simp only: filter_isRegistration_pipeline)
qed

lemma static_walk:
  assumes "\<forall>i arr. pluginsAfter env i arr = arr" and "length arr \<le> maxArrayLength"
  shows "schedule env c i arr = registrations c (takeWhile wellShaped (drop i arr)) \<and>
     blockedBy env i arr =
       (case dropWhile wellShaped (drop i arr) of [] \<Rightarrow> None | bad # rest \<Rightarrow> Some bad)"
proof (induction "length arr - i" arbitrary: i)
  case 0
  then have "\<not> i < arrayLength arr" "drop i arr = []"
    by (simp_all add: arrayLength_def)
  then show ?case
    by (simp add: schedule.simps[of env c i arr] blockedBy.simps[of env i arr]
        registrations_def)
next
  case (Suc n)
  then have i: "i < length arr" by simp
  with assms(2) have lt: "i < arrayLength arr"
    by (simp add: arrayLength_def)
  from i have d: "drop i arr = arr ! i # drop (Suc i) arr"
    by (simp add: Cons_nth_drop_Suc)
  from Suc(2) have "n = length arr - Suc i" by simp
  note IH = Suc(1)[OF this]
  show ?case
  proof (cases "wellShaped (arr ! i)")
    case True
    with lt IH assms(1) show ?thesis
      by (simp add: schedule.simps[of env c i arr] blockedBy.simps[of env i arr] d
          registrations_def)
  next
    case False
    with lt show ?thesis
      by (simp add: schedule.simps[of env c i arr] blockedBy.simps[of env i arr] d
          registrations_def)
  qed
qed

lemma static_walk_complete:
  assumes "\<forall>i arr. pluginsAfter env i arr = arr" and "length arr \<le> maxArrayLength"
    and "blockedBy env 0 arr = None"
  shows "schedule env c 0 arr = registrations c arr \<and> list_all wellShaped arr"
proof -
  note walk = static_walk[OF assms(1,2), of c 0, simplified]
  from walk assms(3) have "dropWhile wellShaped arr = []"
    by (cases "dropWhile wellShaped arr") simp_all
  then have all: "\<forall>p\<in>set arr. wellShaped p" by simp
  then have "takeWhile wellShaped arr = arr" by simp
  with walk all show ?thesis
    by (simp add: list_all_iff)
qed








lemmas multi_defs = createMultiCompiler_def libOptions_def siteOptions_def twoJobs_def
  brokenOptions_def builtCompiler_def baseOptions_def fullOptions_def

lemma createCompilers_logs:
  "createCompilers env cfgs w = (r, w') \<Longrightarrow> logs isConstruction w w'"
proof (induction cfgs arbitrary: w r w')
  case Nil
  then show ?case by (simp add: return_def logs_refl)
next
  case (Cons cfg cfgs)
  from Cons.prems have
    "andThen (createCompiler env cfg) (\<lambda>compiler.
       andThen (createCompilers env cfgs) (\<lambda>others. return (compiler # others))) w = (r, w')"
    by simp
  then show ?case
  proof (rule logs_andThen)
    fix r1 w1 assume "createCompiler env cfg w = (r1, w1)"
    then show "logs isConstruction w w1" by (rule createCompiler_logs)
  next
    fix a w1 r2 w2
    assume "andThen (createCompilers env cfgs) (\<lambda>others. return (a # others)) w1 = (r2, w2)"
    then show "logs isConstruction w1 w2"
    proof (rule logs_andThen)
      fix r1 wa assume "createCompilers env cfgs w1 = (r1, wa)"
      then show "logs isConstruction w1 wa" by (rule Cons.IH)
    next
      fix others wa rb wb assume "return (a # others) wa = (rb, wb)"
      then show "logs isConstruction wa wb" by (simp add: return_def logs_refl)
    qed
  qed
qed

lemma setAllDependencies_logs:
  "setAllDependencies env mc cs w = (r, w') \<Longrightarrow> logs isConstruction w w'"
proof (induction cs arbitrary: mc w r w')
  case Nil
  then show ?case by (simp add: return_def logs_refl)
next
  case (Cons c cs)
  show ?case
  proof (cases "dependencies (c_options c)")
    case None
    with Cons show ?thesis by simp
  next
    case (Some deps)
    with Cons.prems have
      "andThen (call env (SetDependencies c deps)) (\<lambda>_.
         setAllDependencies env
           (mc\<lparr>mc_dependencies := mc_dependencies mc @ [(c, deps)]\<rparr>) cs) w = (r, w')"
      by simp
    then show ?thesis
    proof (rule logs_andThen)
      fix r1 w1 assume "call env (SetDependencies c deps) w = (r1, w1)"
      then show "logs isConstruction w w1" by (rule logs_call[rotated]) simp
    next
      fix a w1 r2 w2
      assume "setAllDependencies env
           (mc\<lparr>mc_dependencies := mc_dependencies mc @ [(c, deps)]\<rparr>) cs w1 = (r2, w2)"
      then show "logs isConstruction w1 w2" by (rule Cons.IH)
    qed
  qed
qed

lemma createMultiCompiler_logs:
  assumes "createMultiCompiler env cfgs multiOptions w = (r, w')"
  shows "logs isConstruction w w'"
  using assms unfolding createMultiCompiler_def
proof (rule logs_andThen)
  fix r1 w1 assume "createCompilers env cfgs w = (r1, w1)"
  then show "logs isConstruction w w1" by (rule createCompilers_logs)
next
  fix cs w1 r2 w2
  assume "andThen (call env (ConstructMulti cs multiOptions)) (\<lambda>_.
     setAllDependencies env
       \<lparr>compilers = cs, mc_options = multiOptions, mc_dependencies = []\<rparr> cs) w1 = (r2, w2)"
  then show "logs isConstruction w1 w2"
  proof (rule logs_andThen)
    fix r1 wa assume "call env (ConstructMulti cs multiOptions) w1 = (r1, wa)"
    then show "logs isConstruction w1 wa" by (rule logs_call[rotated]) simp
  next
    fix a wa rb wb
    assume "setAllDependencies env
       \<lparr>compilers = cs, mc_options = multiOptions, mc_dependencies = []\<rparr> cs wa = (rb, wb)"
    then show "logs isConstruction wa wb" by (rule setAllDependencies_logs)
  qed
qed

lemma construct_logs:
  assumes "construct env options w = (r, w')"
  shows "logs isConstruction w w'"
proof (cases options)
  case (Single cfg)
  with assms have
    "andThen (createCompiler env cfg) (\<lambda>compiler.
       return (ACompiler compiler, watch cfg, WatchOptions (orEmpty (watchOptions cfg)))) w
     = (r, w')" by simp
  then show ?thesis
  proof (rule logs_andThen)
    fix r1 w1 assume "createCompiler env cfg w = (r1, w1)"
    then show "logs isConstruction w w1" by (rule createCompiler_logs)
  next
    fix a w1 r2 w2
    assume "return (ACompiler a, watch cfg, WatchOptions (orEmpty (watchOptions cfg))) w1
       = (r2, w2)"
    then show "logs isConstruction w1 w2" by (simp add: return_def logs_refl)
  qed
next
  case (Multi cfgs multiOptions)
  with assms have
    "andThen (createMultiCompiler env cfgs multiOptions) (\<lambda>compiler.
       return (AMultiCompiler compiler,
               Some (list_ex (\<lambda>options. truthy (watch options)) cfgs),
               WatchOptionsList (map (\<lambda>options. orEmpty (watchOptions options)) cfgs))) w
     = (r, w')" by simp
  then show ?thesis
  proof (rule logs_andThen)
    fix r1 w1 assume "createMultiCompiler env cfgs multiOptions w = (r1, w1)"
    then show "logs isConstruction w w1" by (rule createMultiCompiler_logs)
  next
    fix a w1 r2 w2
    assume "return (AMultiCompiler a,
               Some (list_ex (\<lambda>options. truthy (watch options)) cfgs),
               WatchOptionsList (map (\<lambda>options. orEmpty (watchOptions options)) cfgs)) w1
       = (r2, w2)"
    then show "logs isConstruction w1 w2" by (simp add: return_def logs_refl)
  qed
qed

lemma truthy_iff: "truthy b \<longleftrightarrow> b = Some True"
  by (cases b) auto

lemma construct_Inr:
  assumes "construct env options w = (Inr (h, flag, arg), w')"
  shows "truthy flag = watchRequested options \<and>
     arg = (case options of
              Multi cfgs multiOptions \<Rightarrow>
                WatchOptionsList (map (\<lambda>cfg. orEmpty (watchOptions cfg)) cfgs)
            | Single cfg \<Rightarrow> WatchOptions (orEmpty (watchOptions cfg)))"
proof (cases options)
  case (Single cfg)
  with assms show ?thesis
    by (auto simp: andThen_Inr_iff return_def truthy_iff)
next
  case (Multi cfgs multiOptions)
  with assms show ?thesis
    by (auto simp: andThen_Inr_iff return_def truthy_iff)
qed

lemma schemaGate_eq:
  "schemaGate env options w =
     (if list_all (webpackOptionsSchemaCheck env) (asArray options) then (Inr (), w)
      else case throws env (trace w) (ValidateSchema options) of
             Some e \<Rightarrow> (Inl e, w\<lparr>trace := trace w @ [ValidateSchema options]\<rparr>)
           | None \<Rightarrow>
               (Inr (), w\<lparr>trace := trace w @ [ValidateSchema options],
                          warnings :=
                            warnedOnce DEP_WEBPACK_PRE_COMPILED_SCHEMA_INVALID (warnings w)\<rparr>))"
  by (auto simp: schemaGate_def return_def andThen_def call_def deprecate_def warnedOnce_def
      split: option.splits)


lemma construction_is_quiet:
  "list_all isConstruction evs \<Longrightarrow> filter isStarted evs = [] \<and> filter isReport evs = []"
proof (induction evs)
  case Nil
  then show ?case by simp
next
  case (Cons ev evs)
  then show ?case by (cases ev) simp_all
qed

lemma news_trans:
  "trace w1 = trace w @ xs \<Longrightarrow> trace w2 = trace w1 @ ys \<Longrightarrow> news w w2 = xs @ ys"
  by (simp add: news_def)

lemma create_outcome:
  assumes "create env options w = (r, w1)"
  shows "tickQueue w1 = tickQueue w \<and> filter isStarted (news w w1) = [] \<and>
         filter isReport (news w w1) = []"
proof -
  from assms obtain r0 w0 where g: "schemaGate env options w = (r0, w0)"
    and rest: "(case r0 of Inl e \<Rightarrow> (Inl e, w0) | Inr u \<Rightarrow> construct env options w0) = (r, w1)"
    by (cases "schemaGate env options w") (auto simp: create_def andThen_def split: sum.splits)
  from g have g': "tickQueue w0 = tickQueue w \<and>
      (trace w0 = trace w @ [] \<or> trace w0 = trace w @ [ValidateSchema options])"
    by (auto simp: schemaGate_eq split: if_splits option.splits)
  show ?thesis
  proof (cases r0)
    case (Inl e)
    with rest have "w1 = w0" by simp
    with g' show ?thesis by (auto simp: news_def)
  next
    case (Inr u)
    with rest have "construct env options w0 = (r, w1)" by simp
    from construct_logs[OF this] have l: "tickQueue w1 = tickQueue w0"
      "trace w1 = trace w0 @ news w0 w1" "list_all isConstruction (news w0 w1)"
      by (auto simp: logs_def news_def)
    from g' have "news w w1 = [] @ news w0 w1 \<or>
        news w w1 = [ValidateSchema options] @ news w0 w1"
      using news_trans[OF _ l(2)] by blast
    with construction_is_quiet[OF l(3)] g' l(1) show ?thesis by auto
  qed
qed

lemmas entry_defs = create_def schemaGate_def webpack_def nextTick_def deprecate_def
  doubtfulEnv_def strictEnv_def watchingOptions_def builtCompiler_def baseOptions_def
  fullOptions_def warnedOnce_def emptyObject_def
  DEP_WEBPACK_PRE_COMPILED_SCHEMA_INVALID_def DEP_WEBPACK_WATCH_WITHOUT_CALLBACK_def

lemma create_Inr:
  assumes "create env options w = (Inr (h, flag, arg), w1)"
  shows "truthy flag = watchRequested options \<and>
     arg = (case options of
              Multi cfgs multiOptions \<Rightarrow>
                WatchOptionsList (map (\<lambda>cfg. orEmpty (watchOptions cfg)) cfgs)
            | Single cfg \<Rightarrow> WatchOptions (orEmpty (watchOptions cfg)))"
proof -
  from assms obtain w0 where "construct env options w0 = (Inr (h, flag, arg), w1)"
    by (auto simp: create_def andThen_Inr_iff)
  then show ?thesis by (rule construct_Inr)
qed

lemma webpack_callback_trace:
  assumes "create env options w = (Inr (h, flag, arg), w1)"
  shows "trace (snd (webpack env options (Some cb) w)) =
     trace w1 @ [if truthy flag then Watch h arg (UserCallback cb)
                 else Run h (RunCallback h cb)] \<and>
     (throws env (trace w1)
        (if truthy flag then Watch h arg (UserCallback cb) else Run h (RunCallback h cb)) = None
      \<longrightarrow> fst (webpack env options (Some cb) w) = Inr (Some h))"
  using assms
  by (auto simp: webpack_def andThen_def call_def nextTick_def return_def
      split: option.splits)

section \<open>The claims\<close>

text \<open>
  C1. Whenever \<open>createCompiler\<close> returns a compiler, the calls it has made are exactly, in
  this order: normalise, base defaults, construct the compiler, apply the environment
  plugin, the registrations of the user plugins (the walk of the plugin array, which has
  met no element that cannot be registered), full defaults, the \<open>environment\<close> hook, the
  \<open>afterEnvironment\<close> hook, the option-derived plugins, the \<open>initialize\<close> hook. The
  three hooks fire once each, in that order, and the full defaults pass comes after every
  registration and before the \<open>environment\<close> hook. When no plugin alters the plugin array,
  the registrations are those of all the configured plugins, in their order.
\<close>

theorem createCompiler_pipeline_order:
  assumes "createCompiler env rawOptions w = (Inr compiler, w')"
  shows "trace w' = trace w @
           [Normalize rawOptions,
            BaseDefaults (getNormalizedWebpackOptions env rawOptions),
            Construct (o_context (baseOptions env rawOptions)) (baseOptions env rawOptions),
            EnvironmentPlugin (infrastructureLogging (baseOptions env rawOptions))
              (freshCompiler env rawOptions)] @
           schedule env (freshCompiler env rawOptions) 0 (userPlugins env rawOptions) @
           [FullDefaults (baseOptions env rawOptions),
            Hook Environment compiler,
            Hook AfterEnvironment compiler,
            OptionsApply (fullOptions env rawOptions) compiler,
            Hook Initialize compiler] \<and>
         list_all isRegistration
           (schedule env (freshCompiler env rawOptions) 0 (userPlugins env rawOptions)) \<and>
         blockedBy env 0 (userPlugins env rawOptions) = None \<and>
         filter isHook (news w w') =
           [Hook Environment compiler, Hook AfterEnvironment compiler,
            Hook Initialize compiler] \<and>
         ((\<forall>i arr. pluginsAfter env i arr = arr) \<and>
          length (userPlugins env rawOptions) \<le> maxArrayLength \<longrightarrow>
            list_all wellShaped (userPlugins env rawOptions) \<and>
            schedule env (freshCompiler env rawOptions) 0 (userPlugins env rawOptions) =
              registrations (freshCompiler env rawOptions) (userPlugins env rawOptions))"
proof -
  let ?S = "schedule env (freshCompiler env rawOptions) 0 (userPlugins env rawOptions)"
  note out = createCompiler_outcome[OF assms, unfolded sum.case]
  from out have c: "compiler = builtCompiler env rawOptions" by blast
  from out have free: "blockedBy env 0 (userPlugins env rawOptions) = None" by blast
  from out have n: "news w w' =
      beforePlugins env rawOptions @ ?S @ afterPlugins env rawOptions" by blast
  from out have "w' = w\<lparr>trace := trace w @ news w w'\<rparr>" by blast
  then have "trace w' = trace w @ news w w'"
    by (metis world.select_convs(1) world.surjective world.update_convs(1))
  then have 1: "trace w' = trace w @
           [Normalize rawOptions,
            BaseDefaults (getNormalizedWebpackOptions env rawOptions),
            Construct (o_context (baseOptions env rawOptions)) (baseOptions env rawOptions),
            EnvironmentPlugin (infrastructureLogging (baseOptions env rawOptions))
              (freshCompiler env rawOptions)] @
           ?S @
           [FullDefaults (baseOptions env rawOptions),
            Hook Environment compiler,
            Hook AfterEnvironment compiler,
            OptionsApply (fullOptions env rawOptions) compiler,
            Hook Initialize compiler]"
    by (simp add: n c beforePlugins_def afterPlugins_def)
  note 2 = schedule_registrations[of env "freshCompiler env rawOptions" 0
      "userPlugins env rawOptions"]
  have "filter isHook ?S = []"
  proof -
    have "\<not> isHook ev" if "isRegistration ev" for ev
      using that by (cases ev) simp_all
    with 2 show ?thesis
      by (auto simp: list_all_iff filter_empty_conv)
  qed
  then have 3: "filter isHook (news w w') =
      [Hook Environment compiler, Hook AfterEnvironment compiler, Hook Initialize compiler]"
    by (simp add: n c beforePlugins_def afterPlugins_def)
  have 4: "list_all wellShaped (userPlugins env rawOptions) \<and>
      ?S = registrations (freshCompiler env rawOptions) (userPlugins env rawOptions)"
    if "\<forall>i arr. pluginsAfter env i arr = arr"
      and "length (userPlugins env rawOptions) \<le> maxArrayLength"
    using static_walk_complete[OF that free] by blast
  from 1 2 free 3 4 show ?thesis by blast
qed

theorem createCompiler_pipeline_order_witness:
  "fst (createCompiler calmEnv appOptions emptyWorld) = Inr (builtCompiler calmEnv appOptions) \<and>
   (\<forall>i arr. pluginsAfter calmEnv i arr = arr) \<and>
   length (userPlugins calmEnv appOptions) \<le> maxArrayLength \<and>
   trace (snd (createCompiler calmEnv appOptions emptyWorld)) =
     [Normalize appOptions,
      BaseDefaults appOptions,
      Construct (Some ''/cwd'') (baseOptions calmEnv appOptions),
      EnvironmentPlugin None (freshCompiler calmEnv appOptions),
      PluginCall ''banner'' (freshCompiler calmEnv appOptions) (freshCompiler calmEnv appOptions),
      PluginApply ''TerserPlugin'' (freshCompiler calmEnv appOptions),
      FullDefaults (baseOptions calmEnv appOptions),
      Hook Environment (builtCompiler calmEnv appOptions),
      Hook AfterEnvironment (builtCompiler calmEnv appOptions),
      OptionsApply (fullOptions calmEnv appOptions) (builtCompiler calmEnv appOptions),
      Hook Initialize (builtCompiler calmEnv appOptions)]"
proof -
  have ok: "fst (createCompiler calmEnv appOptions emptyWorld) =
      Inr (builtCompiler calmEnv appOptions)"
    by (simp add: run_defs sample_defs builtCompiler_def baseOptions_def fullOptions_def)
  then have run: "createCompiler calmEnv appOptions emptyWorld =
      (Inr (builtCompiler calmEnv appOptions),
       snd (createCompiler calmEnv appOptions emptyWorld))"
    by (metis prod.collapse)
  have still: "\<forall>i arr. pluginsAfter calmEnv i arr = arr"
    by (simp add: calmEnv_def)
  have ps: "userPlugins calmEnv appOptions = [Callable ''banner'', WithApply ''TerserPlugin'']"
    by (simp add: userPlugins_def baseOptions_def sample_defs)
  have short: "length (userPlugins calmEnv appOptions) \<le> maxArrayLength"
    by (simp add: ps maxArrayLength_def)
  note main = createCompiler_pipeline_order[OF run]
  from main still short have
    s: "schedule calmEnv (freshCompiler calmEnv appOptions) 0 (userPlugins calmEnv appOptions) =
      registrations (freshCompiler calmEnv appOptions)
        [Callable ''banner'', WithApply ''TerserPlugin'']"
    unfolding ps by blast
  from main have tr: "trace (snd (createCompiler calmEnv appOptions emptyWorld)) =
      trace emptyWorld @
      [Normalize appOptions,
       BaseDefaults (getNormalizedWebpackOptions calmEnv appOptions),
       Construct (o_context (baseOptions calmEnv appOptions)) (baseOptions calmEnv appOptions),
       EnvironmentPlugin (infrastructureLogging (baseOptions calmEnv appOptions))
         (freshCompiler calmEnv appOptions)] @
      schedule calmEnv (freshCompiler calmEnv appOptions) 0 (userPlugins calmEnv appOptions) @
      [FullDefaults (baseOptions calmEnv appOptions),
       Hook Environment (builtCompiler calmEnv appOptions),
       Hook AfterEnvironment (builtCompiler calmEnv appOptions),
       OptionsApply (fullOptions calmEnv appOptions) (builtCompiler calmEnv appOptions),
       Hook Initialize (builtCompiler calmEnv appOptions)]"
    by blast
  have t: "trace (snd (createCompiler calmEnv appOptions emptyWorld)) =
     [Normalize appOptions,
      BaseDefaults appOptions,
      Construct (Some ''/cwd'') (baseOptions calmEnv appOptions),
      EnvironmentPlugin None (freshCompiler calmEnv appOptions),
      PluginCall ''banner'' (freshCompiler calmEnv appOptions) (freshCompiler calmEnv appOptions),
      PluginApply ''TerserPlugin'' (freshCompiler calmEnv appOptions),
      FullDefaults (baseOptions calmEnv appOptions),
      Hook Environment (builtCompiler calmEnv appOptions),
      Hook AfterEnvironment (builtCompiler calmEnv appOptions),
      OptionsApply (fullOptions calmEnv appOptions) (builtCompiler calmEnv appOptions),
      Hook Initialize (builtCompiler calmEnv appOptions)]"
    unfolding tr s
    by (simp add: registrations_def baseOptions_def sample_defs)
  from ok still short t show ?thesis by blast
qed



text \<open>
  C3. For a single configuration whose \<open>watch\<close> is falsy, with a callback, once the
  compiler is made: \<open>webpack\<close> calls \<open>run\<close> with the closure of line 177; when \<open>run\<close>
  invokes that closure, with an error or without one, the closure calls \<open>close\<close> with
  the closure of line 178; and when \<open>close\<close> invokes this one with \<open>err2\<close>, the caller's
  callback is invoked with the run error if there is one, else with \<open>err2\<close>, together
  with the stats that \<open>run\<close> reported, absent or not. \<open>webpack\<close> returns the compiler
  when the call of \<open>run\<close> does not throw.
\<close>

theorem run_then_close_then_callback:
  assumes "create env (Single options) w = (Inr (h, flag, arg), w1)"
    and "\<not> truthy (watch options)"
  shows "trace (snd (webpack env (Single options) (Some cb) w)) =
           trace w1 @ [Run h (RunCallback h cb)] \<and>
         trace (snd (invoke env (RunCallback h cb) err stats wa)) =
           trace wa @ [Close h (CloseCallback cb err stats)] \<and>
         trace (snd (invoke env (CloseCallback cb err stats) err2 s wb)) =
           trace wb @
           [CallbackInvoked cb
              (case err of Val e \<Rightarrow> Val e | Undefined \<Rightarrow> err2 | Null \<Rightarrow> err2) stats] \<and>
         (throws env (trace w1) (Run h (RunCallback h cb)) = None \<longrightarrow>
          fst (webpack env (Single options) (Some cb) w) = Inr (Some h))"
proof -
  from create_Inr[OF assms(1)] assms(2) have f: "\<not> truthy flag"
    by (simp add: truthy_iff)
  from webpack_callback_trace[OF assms(1), of cb] f have
    1: "trace (snd (webpack env (Single options) (Some cb) w)) =
           trace w1 @ [Run h (RunCallback h cb)]"
    and 4: "throws env (trace w1) (Run h (RunCallback h cb)) = None \<longrightarrow>
          fst (webpack env (Single options) (Some cb) w) = Inr (Some h)"
    by simp_all
  have 2: "trace (snd (invoke env (RunCallback h cb) err stats wa)) =
           trace wa @ [Close h (CloseCallback cb err stats)]"
    by (simp add: call_def split: option.splits)
  have 3: "trace (snd (invoke env (CloseCallback cb err stats) err2 s wb)) =
           trace wb @
           [CallbackInvoked cb
              (case err of Val e \<Rightarrow> Val e | Undefined \<Rightarrow> err2 | Null \<Rightarrow> err2) stats]"
    by (cases err) (simp_all add: call_def split: option.splits)
  from 1 2 3 4 show ?thesis by blast
qed

theorem run_then_close_then_callback_witness:
  "fst (create calmEnv (Single appOptions) emptyWorld) =
     Inr (ACompiler (builtCompiler calmEnv appOptions), None, WatchOptions emptyObject) \<and>
   \<not> truthy (watch appOptions) \<and>
   fst (webpack calmEnv (Single appOptions) (Some ''done'') emptyWorld) =
     Inr (Some (ACompiler (builtCompiler calmEnv appOptions))) \<and>
   last (trace (snd (webpack calmEnv (Single appOptions) (Some ''done'') emptyWorld))) =
     Run (ACompiler (builtCompiler calmEnv appOptions))
       (RunCallback (ACompiler (builtCompiler calmEnv appOptions)) ''done'') \<and>
   trace (snd (invoke calmEnv
      (CloseCallback ''done'' Null (Val ''stats'')) (Val (JSError ''Error'' ''close failed''))
      Undefined emptyWorld)) =
     [CallbackInvoked ''done'' (Val (JSError ''Error'' ''close failed'')) (Val ''stats'')] \<and>
   trace (snd (invoke calmEnv
      (CloseCallback ''done'' (Val (JSError ''Error'' ''run failed'')) Undefined)
      (Val (JSError ''Error'' ''close failed'')) Undefined emptyWorld)) =
     [CallbackInvoked ''done'' (Val (JSError ''Error'' ''run failed'')) Undefined]"
proof -
  let ?h = "ACompiler (builtCompiler calmEnv appOptions)"
  have f: "fst (create calmEnv (Single appOptions) emptyWorld) =
      Inr (?h, None, WatchOptions emptyObject)"
    by (simp add: run_defs sample_defs entry_defs)
  then have c: "create calmEnv (Single appOptions) emptyWorld =
      (Inr (?h, None, WatchOptions emptyObject),
       snd (create calmEnv (Single appOptions) emptyWorld))"
    by (metis prod.collapse)
  have n: "\<not> truthy (watch appOptions)"
    by (simp add: sample_defs)
  note main = run_then_close_then_callback[OF c n, of "''done''"]
  from main[of Null "Val ''stats''" emptyWorld "Val (JSError ''Error'' ''close failed'')"
      Undefined emptyWorld]
  have 1: "last (trace (snd (webpack calmEnv (Single appOptions) (Some ''done'') emptyWorld))) =
      Run ?h (RunCallback ?h ''done'')"
    and 2: "trace (snd (invoke calmEnv
      (CloseCallback ''done'' Null (Val ''stats'')) (Val (JSError ''Error'' ''close failed''))
      Undefined emptyWorld)) =
     [CallbackInvoked ''done'' (Val (JSError ''Error'' ''close failed'')) (Val ''stats'')]"
    by (simp_all add: emptyWorld_def)
  from main[of "Val (JSError ''Error'' ''run failed'')" Undefined emptyWorld
      "Val (JSError ''Error'' ''close failed'')" Undefined emptyWorld]
  have 3: "trace (snd (invoke calmEnv
      (CloseCallback ''done'' (Val (JSError ''Error'' ''run failed'')) Undefined)
      (Val (JSError ''Error'' ''close failed'')) Undefined emptyWorld)) =
     [CallbackInvoked ''done'' (Val (JSError ''Error'' ''run failed'')) Undefined]"
    by (simp add: emptyWorld_def)
  have "throws calmEnv (trace (snd (create calmEnv (Single appOptions) emptyWorld)))
      (Run ?h (RunCallback ?h ''done'')) = None"
    by (simp add: calmEnv_def)
  with main have 4: "fst (webpack calmEnv (Single appOptions) (Some ''done'') emptyWorld) =
      Inr (Some ?h)"
    by blast
  from f n 1 2 3 4 show ?thesis by blast
qed

text \<open>
  C4. When construction (\<open>create\<close>: the gate and the making of the compiler) throws: with
  a callback, \<open>webpack\<close> throws nothing and returns \<open>null\<close>, the callback has not
  been invoked when it returns, and the closure queued with \<open>process.nextTick\<close> invokes
  the callback with the error alone, which is what the next turn of a queue that was
  empty does; without a callback, \<open>webpack\<close> throws the error.
\<close>

theorem construction_error_delivery:
  assumes "create env options w = (Inl e, w1)"
  shows "webpack env options (Some cb) w =
           (Inr None, w1\<lparr>tickQueue := tickQueue w @ [TickCallback cb e]\<rparr>) \<and>
         filter isReport (news w (snd (webpack env options (Some cb) w))) = [] \<and>
         invoke env (TickCallback cb e) a s w2 =
           call env (CallbackInvoked cb (Val e) Undefined) w2 \<and>
         (tickQueue w = [] \<longrightarrow>
            runTick env (snd (webpack env options (Some cb) w)) =
              call env (CallbackInvoked cb (Val e) Undefined) (w1\<lparr>tickQueue := []\<rparr>)) \<and>
         webpack env options None w = (Inl e, w1)"
proof -
  note out = create_outcome[OF assms]
  from assms have 1: "webpack env options (Some cb) w =
      (Inr None, w1\<lparr>tickQueue := tickQueue w @ [TickCallback cb e]\<rparr>)"
    using out by (simp add: webpack_def andThen_def nextTick_def return_def)
  have 2: "filter isReport (news w (snd (webpack env options (Some cb) w))) = []"
    using out by (simp add: 1 news_def)
  from assms have 3: "webpack env options None w = (Inl e, w1)"
    by (simp add: webpack_def andThen_def)
  have 4: "runTick env (snd (webpack env options (Some cb) w)) =
      call env (CallbackInvoked cb (Val e) Undefined) (w1\<lparr>tickQueue := []\<rparr>)"
    if "tickQueue w = []"
    using that by (simp add: 1 runTick_def)
  from 1 2 3 4 show ?thesis by simp
qed

theorem construction_error_delivery_witness:
  "fst (create calmEnv (Single brokenOptions) emptyWorld) =
     Inl (JSError ''TypeError'' ''plugin.apply is not a function'') \<and>
   fst (webpack calmEnv (Single brokenOptions) (Some ''done'') emptyWorld) = Inr None \<and>
   tickQueue (snd (webpack calmEnv (Single brokenOptions) (Some ''done'') emptyWorld)) =
     [TickCallback ''done'' (JSError ''TypeError'' ''plugin.apply is not a function'')] \<and>
   last (trace (snd (runTick calmEnv
     (snd (webpack calmEnv (Single brokenOptions) (Some ''done'') emptyWorld))))) =
     CallbackInvoked ''done''
       (Val (JSError ''TypeError'' ''plugin.apply is not a function'')) Undefined \<and>
   fst (webpack calmEnv (Single brokenOptions) None emptyWorld) =
     Inl (JSError ''TypeError'' ''plugin.apply is not a function'')"
proof -
  let ?e = "JSError ''TypeError'' ''plugin.apply is not a function''"
  have f: "fst (create calmEnv (Single brokenOptions) emptyWorld) = Inl ?e"
    by (simp add: run_defs sample_defs entry_defs brokenOptions_def)
  then have "create calmEnv (Single brokenOptions) emptyWorld =
      (Inl ?e, snd (create calmEnv (Single brokenOptions) emptyWorld))"
    by (metis prod.collapse)
  note main = construction_error_delivery[OF this, of "''done''"]
  have q: "tickQueue emptyWorld = []"
    by (simp add: emptyWorld_def)
  from main q have
    "runTick calmEnv (snd (webpack calmEnv (Single brokenOptions) (Some ''done'') emptyWorld)) =
       call calmEnv (CallbackInvoked ''done'' (Val ?e) Undefined)
         ((snd (create calmEnv (Single brokenOptions) emptyWorld))\<lparr>tickQueue := []\<rparr>)"
    by blast
  then have t: "last (trace (snd (runTick calmEnv
     (snd (webpack calmEnv (Single brokenOptions) (Some ''done'') emptyWorld))))) =
     CallbackInvoked ''done'' (Val ?e) Undefined"
    by (simp add: call_def calmEnv_def)
  from main f t show ?thesis
    by (simp add: emptyWorld_def)
qed

text \<open>
  C5, as the code has it. The loop of line 78 walks the live plugin array by index, one
  registration at a time: it reads each element from the array as it stands when the
  index comes to it, calls a function with the compiler as receiver and as sole
  argument, and calls the \<open>apply\<close> of any other plugin with the compiler; it reads the
  next element only when that call has returned. Whatever the outcome, the registrations
  made are an initial part of this walk; when \<open>createCompiler\<close> returns they are the
  whole walk, which has met no element that cannot be registered. When no plugin alters
  the array, the walk is the declared list in declared order.
\<close>

theorem plugins_registered_along_live_array:
  assumes "plugins (baseOptions env rawOptions) = PluginsArray ps"
    and "createCompiler env rawOptions w = (r, w')"
  shows "prefix (filter isRegistration (news w w'))
           (schedule env (freshCompiler env rawOptions) 0 ps) \<and>
         (\<forall>compiler. r = Inr compiler \<longrightarrow>
            blockedBy env 0 ps = None \<and>
            filter isRegistration (news w w') =
              schedule env (freshCompiler env rawOptions) 0 ps) \<and>
         ((\<forall>i arr. pluginsAfter env i arr = arr) \<and> length ps \<le> maxArrayLength \<longrightarrow>
            schedule env (freshCompiler env rawOptions) 0 ps =
              registrations (freshCompiler env rawOptions) (takeWhile wellShaped ps))"
proof -
  note ps = userPlugins_array[OF assms(1)]
  from registered_prefix[OF assms(2)] have
    1: "prefix (filter isRegistration (news w w'))
       (schedule env (freshCompiler env rawOptions) 0 ps)"
    by (simp only: ps)
  have 2: "blockedBy env 0 ps = None \<and>
      filter isRegistration (news w w') = schedule env (freshCompiler env rawOptions) 0 ps"
    if "r = Inr compiler" for compiler
  proof -
    from createCompiler_outcome[OF assms(2)] that have
      "blockedBy env 0 ps = None" and
      "news w w' = beforePlugins env rawOptions @
         schedule env (freshCompiler env rawOptions) 0 ps @ afterPlugins env rawOptions"
      by (simp_all add: ps)
    then show ?thesis
      by (simp only: filter_isRegistration_pipeline)
  qed
  have 3: "schedule env (freshCompiler env rawOptions) 0 ps =
      registrations (freshCompiler env rawOptions) (takeWhile wellShaped ps)"
    if "\<forall>i arr. pluginsAfter env i arr = arr" and "length ps \<le> maxArrayLength"
    using static_walk[OF that, of "freshCompiler env rawOptions" 0] by simp
  from 1 2 3 show ?thesis by blast
qed

theorem plugins_registered_along_live_array_witness:
  "plugins (baseOptions calmEnv appOptions) =
     PluginsArray [Callable ''banner'', WithApply ''TerserPlugin''] \<and>
   (\<forall>i arr. pluginsAfter calmEnv i arr = arr) \<and>
   length [Callable ''banner'', WithApply ''TerserPlugin''] \<le> maxArrayLength \<and>
   fst (createCompiler calmEnv appOptions emptyWorld) = Inr (builtCompiler calmEnv appOptions) \<and>
   filter isRegistration (news emptyWorld (snd (createCompiler calmEnv appOptions emptyWorld))) =
     [PluginCall ''banner'' (freshCompiler calmEnv appOptions) (freshCompiler calmEnv appOptions),
      PluginApply ''TerserPlugin'' (freshCompiler calmEnv appOptions)] \<and>
   plugins (baseOptions meddlingEnv grownOptions) = PluginsArray [Callable ''adder''] \<and>
   fst (createCompiler meddlingEnv grownOptions emptyWorld) =
     Inr (builtCompiler meddlingEnv grownOptions) \<and>
   filter isRegistration
     (news emptyWorld (snd (createCompiler meddlingEnv grownOptions emptyWorld))) =
     [PluginCall ''adder'' (freshCompiler meddlingEnv grownOptions)
        (freshCompiler meddlingEnv grownOptions),
      PluginApply ''late'' (freshCompiler meddlingEnv grownOptions)]"
proof -
  have g: "plugins (baseOptions meddlingEnv grownOptions) = PluginsArray [Callable ''adder'']"
    by (simp add: baseOptions_def sample_defs meddlingEnv_def grownOptions_def)
  have gok: "fst (createCompiler meddlingEnv grownOptions emptyWorld) =
      Inr (builtCompiler meddlingEnv grownOptions)"
    by (simp add: run_defs sample_defs meddlingEnv_def grownOptions_def builtCompiler_def
        baseOptions_def fullOptions_def)
  then have grun: "createCompiler meddlingEnv grownOptions emptyWorld =
      (Inr (builtCompiler meddlingEnv grownOptions),
       snd (createCompiler meddlingEnv grownOptions emptyWorld))"
    by (metis prod.collapse)
  have walk: "schedule meddlingEnv (freshCompiler meddlingEnv grownOptions) 0 [Callable ''adder''] =
      [PluginCall ''adder'' (freshCompiler meddlingEnv grownOptions)
         (freshCompiler meddlingEnv grownOptions),
       PluginApply ''late'' (freshCompiler meddlingEnv grownOptions)]"
    by (simp add: schedule.simps arrayLength_def maxArrayLength_def meddlingEnv_def calmEnv_def)
  from plugins_registered_along_live_array[OF g grun] have
    "filter isRegistration
       (news emptyWorld (snd (createCompiler meddlingEnv grownOptions emptyWorld))) =
     schedule meddlingEnv (freshCompiler meddlingEnv grownOptions) 0 [Callable ''adder'']"
    by blast
  then have grown: "filter isRegistration
     (news emptyWorld (snd (createCompiler meddlingEnv grownOptions emptyWorld))) =
     [PluginCall ''adder'' (freshCompiler meddlingEnv grownOptions)
        (freshCompiler meddlingEnv grownOptions),
      PluginApply ''late'' (freshCompiler meddlingEnv grownOptions)]"
    by (simp only: walk)
  have p: "plugins (baseOptions calmEnv appOptions) =
      PluginsArray [Callable ''banner'', WithApply ''TerserPlugin'']"
    by (simp add: baseOptions_def sample_defs)
  have ok: "fst (createCompiler calmEnv appOptions emptyWorld) =
      Inr (builtCompiler calmEnv appOptions)"
    by (simp add: run_defs sample_defs builtCompiler_def baseOptions_def fullOptions_def)
  then have run: "createCompiler calmEnv appOptions emptyWorld =
      (Inr (builtCompiler calmEnv appOptions),
       snd (createCompiler calmEnv appOptions emptyWorld))"
    by (metis prod.collapse)
  have still: "\<forall>i arr. pluginsAfter calmEnv i arr = arr"
    by (simp add: calmEnv_def)
  have short: "length [Callable ''banner'', WithApply ''TerserPlugin''] \<le> maxArrayLength"
    by (simp add: maxArrayLength_def)
  note main = plugins_registered_along_live_array[OF p run]
  from main still short have
    "filter isRegistration
       (news emptyWorld (snd (createCompiler calmEnv appOptions emptyWorld))) =
     registrations (freshCompiler calmEnv appOptions)
       (takeWhile wellShaped [Callable ''banner'', WithApply ''TerserPlugin''])"
    by metis
  then have "filter isRegistration
       (news emptyWorld (snd (createCompiler calmEnv appOptions emptyWorld))) =
     [PluginCall ''banner'' (freshCompiler calmEnv appOptions) (freshCompiler calmEnv appOptions),
      PluginApply ''TerserPlugin'' (freshCompiler calmEnv appOptions)]"
    by (simp add: registrations_def)
  with p still short ok g gok grown show ?thesis by blast
qed

text \<open>
  C5, as stated, fails: the declared list is \<open>[swapper, first, second]\<close>, the plugin
  \<open>swapper\<close> swaps the two elements after it in the array, \<open>createCompiler\<close> returns, and
  the plugins registered are \<open>swapper\<close>, \<open>second\<close>, \<open>first\<close>: not the declared order.
\<close>

theorem declared_order_counterexample:
  "fst (createCompiler meddlingEnv swappedOptions emptyWorld) =
     Inr (builtCompiler meddlingEnv swappedOptions) \<and>
   plugins (baseOptions meddlingEnv swappedOptions) =
     PluginsArray [Callable ''swapper'', WithApply ''first'', WithApply ''second''] \<and>
   filter isRegistration
     (news emptyWorld (snd (createCompiler meddlingEnv swappedOptions emptyWorld))) =
     [PluginCall ''swapper'' (freshCompiler meddlingEnv swappedOptions)
        (freshCompiler meddlingEnv swappedOptions),
      PluginApply ''second'' (freshCompiler meddlingEnv swappedOptions),
      PluginApply ''first'' (freshCompiler meddlingEnv swappedOptions)] \<and>
   filter isRegistration
     (news emptyWorld (snd (createCompiler meddlingEnv swappedOptions emptyWorld))) \<noteq>
     registrations (freshCompiler meddlingEnv swappedOptions)
       [Callable ''swapper'', WithApply ''first'', WithApply ''second'']"
  by (simp add: run_defs sample_defs meddlingEnv_def swappedOptions_def builtCompiler_def
      freshCompiler_def baseOptions_def fullOptions_def news_def registrations_def)






text \<open>
  C8. With a callback, once the compiler is made, the one call that \<open>webpack\<close> adds is:
  for an array, \<open>watch\<close> exactly when some element has \<open>watch: true\<close>, with the list
  of the elements' \<open>watchOptions\<close> (\<open>{}\<close> for an element that has none) and the
  callback itself, and \<open>run\<close> otherwise; for a single configuration, \<open>watch\<close> exactly
  when its \<open>watch\<close> is \<open>true\<close>, with its \<open>watchOptions\<close> (or \<open>{}\<close>) and the callback,
  and \<open>run\<close> otherwise.
\<close>

theorem watch_dispatch:
  assumes "create env options w = (Inr (h, flag, arg), w1)"
  shows "trace (snd (webpack env options (Some cb) w)) =
     trace w1 @
     [case options of
        Multi cfgs multiOptions \<Rightarrow>
          if list_ex (\<lambda>cfg. watch cfg = Some True) cfgs
          then Watch h
                 (WatchOptionsList
                    (map (\<lambda>cfg. case watchOptions cfg of Some x \<Rightarrow> x | None \<Rightarrow> emptyObject)
                       cfgs))
                 (UserCallback cb)
          else Run h (RunCallback h cb)
      | Single cfg \<Rightarrow>
          if watch cfg = Some True
          then Watch h
                 (WatchOptions (case watchOptions cfg of Some x \<Rightarrow> x | None \<Rightarrow> emptyObject))
                 (UserCallback cb)
          else Run h (RunCallback h cb)]"
proof -
  have o: "orEmpty x = (case x of Some y \<Rightarrow> y | None \<Rightarrow> emptyObject)" for x
    by (cases x) simp_all
  from create_Inr[OF assms] webpack_callback_trace[OF assms, of cb] show ?thesis
    by (cases options) (simp_all add: o)
qed

theorem watch_dispatch_witness:
  "fst (create calmEnv (Multi [libOptions, watchingOptions] twoJobs) emptyWorld) =
     Inr (AMultiCompiler
            \<lparr>compilers = [builtCompiler calmEnv libOptions, builtCompiler calmEnv watchingOptions],
             mc_options = twoJobs, mc_dependencies = []\<rparr>,
          Some True,
          WatchOptionsList [emptyObject, [(''poll'', ''1000'')]]) \<and>
   last (trace (snd (webpack calmEnv (Multi [libOptions, watchingOptions] twoJobs)
      (Some ''done'') emptyWorld))) =
     Watch (AMultiCompiler
            \<lparr>compilers = [builtCompiler calmEnv libOptions, builtCompiler calmEnv watchingOptions],
             mc_options = twoJobs, mc_dependencies = []\<rparr>)
       (WatchOptionsList [emptyObject, [(''poll'', ''1000'')]])
       (UserCallback ''done'')"
proof -
  let ?h = "AMultiCompiler
            \<lparr>compilers = [builtCompiler calmEnv libOptions, builtCompiler calmEnv watchingOptions],
             mc_options = twoJobs, mc_dependencies = []\<rparr>"
  let ?arg = "WatchOptionsList [emptyObject, [(''poll'', ''1000'')]]"
  let ?in = "Multi [libOptions, watchingOptions] twoJobs"
  have f: "fst (create calmEnv ?in emptyWorld) = Inr (?h, Some True, ?arg)"
    by (simp add: run_defs sample_defs entry_defs multi_defs)
  then have c: "create calmEnv ?in emptyWorld =
      (Inr (?h, Some True, ?arg), snd (create calmEnv ?in emptyWorld))"
    by (metis prod.collapse)
  from watch_dispatch[OF c, of "''done''"] have
    "last (trace (snd (webpack calmEnv ?in (Some ''done'') emptyWorld))) =
       Watch ?h ?arg (UserCallback ''done'')"
    by (simp add: libOptions_def watchingOptions_def blankOptions_def emptyObject_def)
  with f show ?thesis by blast
qed

text \<open>
  C9. Without a callback, once the compiler is made, \<open>webpack\<close> returns it and has
  called neither \<open>run\<close> nor \<open>watch\<close> nor \<open>close\<close>. When the watch flag of the input
  is true, the watch-without-callback warning is emitted unless the process has emitted
  it before; when it is not, no warning is added. Warnings never repeat.
\<close>

theorem no_callback_returns_idle_compiler:
  assumes "create env options w = (Inr (h, flag, arg), w1)"
  shows "webpack env options None w =
           (Inr (Some h),
            w1\<lparr>warnings :=
                 if watchRequested options
                 then warnedOnce DEP_WEBPACK_WATCH_WITHOUT_CALLBACK (warnings w1)
                 else warnings w1\<rparr>) \<and>
         filter isStarted (news w (snd (webpack env options None w))) = [] \<and>
         (distinct (warnings w1) \<longrightarrow>
            distinct (warnings (snd (webpack env options None w))))"
proof -
  from create_Inr[OF assms] have f: "truthy flag = watchRequested options" by blast
  from assms f have 1: "webpack env options None w =
           (Inr (Some h),
            w1\<lparr>warnings :=
                 if watchRequested options
                 then warnedOnce DEP_WEBPACK_WATCH_WITHOUT_CALLBACK (warnings w1)
                 else warnings w1\<rparr>)"
    by (auto simp: webpack_def andThen_def deprecate_def return_def warnedOnce_def)
  from create_outcome[OF assms] have
    2: "filter isStarted (news w (snd (webpack env options None w))) = []"
    by (simp add: 1 news_def)
  have 3: "distinct (warnings (snd (webpack env options None w)))" if "distinct (warnings w1)"
    using that by (simp add: 1 warnedOnce_def)
  from 1 2 3 show ?thesis by blast
qed

theorem no_callback_returns_idle_compiler_witness:
  "fst (create calmEnv (Single watchingOptions) emptyWorld) =
     Inr (ACompiler (builtCompiler calmEnv watchingOptions), Some True,
          WatchOptions [(''poll'', ''1000'')]) \<and>
   fst (webpack calmEnv (Single watchingOptions) None emptyWorld) =
     Inr (Some (ACompiler (builtCompiler calmEnv watchingOptions))) \<and>
   warnings (snd (webpack calmEnv (Single watchingOptions) None emptyWorld)) =
     [DEP_WEBPACK_WATCH_WITHOUT_CALLBACK] \<and>
   distinct (warnings (snd (create calmEnv (Single watchingOptions) emptyWorld))) \<and>
   distinct (warnings (snd (webpack calmEnv (Single watchingOptions) None emptyWorld))) \<and>
   filter isStarted
     (news emptyWorld (snd (webpack calmEnv (Single watchingOptions) None emptyWorld))) = []"
proof -
  let ?h = "ACompiler (builtCompiler calmEnv watchingOptions)"
  have f: "fst (create calmEnv (Single watchingOptions) emptyWorld) =
      Inr (?h, Some True, WatchOptions [(''poll'', ''1000'')])"
    by (simp add: run_defs sample_defs entry_defs)
  then have c: "create calmEnv (Single watchingOptions) emptyWorld =
      (Inr (?h, Some True, WatchOptions [(''poll'', ''1000'')]),
       snd (create calmEnv (Single watchingOptions) emptyWorld))"
    by (metis prod.collapse)
  have w: "warnings (snd (create calmEnv (Single watchingOptions) emptyWorld)) = []"
    by (simp add: run_defs sample_defs entry_defs)
  note main = no_callback_returns_idle_compiler[OF c]
  from main have 1: "fst (webpack calmEnv (Single watchingOptions) None emptyWorld) =
      Inr (Some ?h)" by simp
  from main have "warnings (snd (webpack calmEnv (Single watchingOptions) None emptyWorld)) =
      (if watchRequested (Single watchingOptions)
       then warnedOnce DEP_WEBPACK_WATCH_WITHOUT_CALLBACK
              (warnings (snd (create calmEnv (Single watchingOptions) emptyWorld)))
       else warnings (snd (create calmEnv (Single watchingOptions) emptyWorld)))"
    by simp
  then have 2: "warnings (snd (webpack calmEnv (Single watchingOptions) None emptyWorld)) =
      [DEP_WEBPACK_WATCH_WITHOUT_CALLBACK]"
    by (simp only: w, simp add: warnedOnce_def watchingOptions_def blankOptions_def)
  from main have 3: "filter isStarted
     (news emptyWorld (snd (webpack calmEnv (Single watchingOptions) None emptyWorld))) = []"
    by blast
  from w have 4: "distinct (warnings (snd (create calmEnv (Single watchingOptions) emptyWorld)))"
    by simp
  with main have
    5: "distinct (warnings (snd (webpack calmEnv (Single watchingOptions) None emptyWorld)))"
    by blast
  from f 1 2 3 4 5 show ?thesis by blast
qed

text \<open>
  C10. When the \<open>plugins\<close> field that \<open>createCompiler\<close> reads is not an array (unset, or
  a single plugin object or function), the registration step does nothing:
  \<open>createCompiler\<close> is the straight run of the nine other calls, exactly as for the
  empty array; no plugin is called, and an error can only come from one of the nine
  calls.
\<close>

theorem non_array_plugins_skip_registration:
  assumes "\<not> isArray (plugins (baseOptions env rawOptions)) \<or>
           plugins (baseOptions env rawOptions) = PluginsArray []"
  shows "createCompiler env rawOptions w =
           andThen (perform env
             [Normalize rawOptions,
              BaseDefaults (getNormalizedWebpackOptions env rawOptions),
              Construct (o_context (baseOptions env rawOptions)) (baseOptions env rawOptions),
              EnvironmentPlugin (infrastructureLogging (baseOptions env rawOptions))
                (freshCompiler env rawOptions),
              FullDefaults (baseOptions env rawOptions),
              Hook Environment (builtCompiler env rawOptions),
              Hook AfterEnvironment (builtCompiler env rawOptions),
              OptionsApply (fullOptions env rawOptions) (builtCompiler env rawOptions),
              Hook Initialize (builtCompiler env rawOptions)]) (\<lambda>_.
           return (builtCompiler env rawOptions)) w \<and>
         filter isRegistration (news w (snd (createCompiler env rawOptions w))) = [] \<and>
         (\<forall>e. fst (createCompiler env rawOptions w) = Inl e \<longrightarrow>
              thrownByLast env (snd (createCompiler env rawOptions w)) e)"
proof -
  from assms have none: "userPlugins env rawOptions = []"
    using userPlugins_no_array userPlugins_array by blast
  have run: "createCompiler env rawOptions w =
     (fst (createCompiler env rawOptions w), snd (createCompiler env rawOptions w))"
    by simp
  have "createCompiler env rawOptions =
      andThen (perform env (beforePlugins env rawOptions @ afterPlugins env rawOptions)) (\<lambda>_.
      return (builtCompiler env rawOptions))"
    unfolding createCompiler_shape none by (simp add: walk_empty)
  then have 1: "createCompiler env rawOptions w =
           andThen (perform env
             [Normalize rawOptions,
              BaseDefaults (getNormalizedWebpackOptions env rawOptions),
              Construct (o_context (baseOptions env rawOptions)) (baseOptions env rawOptions),
              EnvironmentPlugin (infrastructureLogging (baseOptions env rawOptions))
                (freshCompiler env rawOptions),
              FullDefaults (baseOptions env rawOptions),
              Hook Environment (builtCompiler env rawOptions),
              Hook AfterEnvironment (builtCompiler env rawOptions),
              OptionsApply (fullOptions env rawOptions) (builtCompiler env rawOptions),
              Hook Initialize (builtCompiler env rawOptions)]) (\<lambda>_.
           return (builtCompiler env rawOptions)) w"
    by (simp add: beforePlugins_def afterPlugins_def)
  from registered_prefix[OF run] have
    2: "filter isRegistration (news w (snd (createCompiler env rawOptions w))) = []"
    by (simp add: none walk_empty)
  have 3: "thrownByLast env (snd (createCompiler env rawOptions w)) e"
    if "fst (createCompiler env rawOptions w) = Inl e" for e
    using createCompiler_outcome[OF run] that by (simp add: none walk_empty)
  from 1 2 3 show ?thesis by blast
qed

theorem non_array_plugins_skip_registration_witness:
  "\<not> isArray (plugins (baseOptions calmEnv soloOptions)) \<and>
   fst (createCompiler calmEnv soloOptions emptyWorld) = Inr (builtCompiler calmEnv soloOptions) \<and>
   filter isRegistration
     (news emptyWorld (snd (createCompiler calmEnv soloOptions emptyWorld))) = [] \<and>
   \<not> isArray (plugins (baseOptions flakyEnv soloOptions)) \<and>
   fst (createCompiler flakyEnv soloOptions emptyWorld) = Inl (JSError ''Error'' ''hook failed'') \<and>
   thrownByLast flakyEnv (snd (createCompiler flakyEnv soloOptions emptyWorld))
     (JSError ''Error'' ''hook failed'')"
proof -
  have p: "\<not> isArray (plugins (baseOptions calmEnv soloOptions))"
    by (simp add: baseOptions_def sample_defs soloOptions_def)
  then have "\<not> isArray (plugins (baseOptions calmEnv soloOptions)) \<or>
      plugins (baseOptions calmEnv soloOptions) = PluginsArray []"
    by blast
  from non_array_plugins_skip_registration[OF this, of emptyWorld] have
    none: "filter isRegistration
      (news emptyWorld (snd (createCompiler calmEnv soloOptions emptyWorld))) = []"
    by blast
  have ok: "fst (createCompiler calmEnv soloOptions emptyWorld) =
      Inr (builtCompiler calmEnv soloOptions)"
    by (simp add: run_defs sample_defs soloOptions_def builtCompiler_def baseOptions_def
        fullOptions_def)
  have p': "\<not> isArray (plugins (baseOptions flakyEnv soloOptions))"
    by (simp add: baseOptions_def sample_defs soloOptions_def flakyEnv_def)
  then have d: "\<not> isArray (plugins (baseOptions flakyEnv soloOptions)) \<or>
      plugins (baseOptions flakyEnv soloOptions) = PluginsArray []"
    by blast
  have bad: "fst (createCompiler flakyEnv soloOptions emptyWorld) =
      Inl (JSError ''Error'' ''hook failed'')"
    by (simp add: run_defs sample_defs soloOptions_def flakyEnv_def)
  with non_array_plugins_skip_registration[OF d, of emptyWorld] have
    last: "thrownByLast flakyEnv (snd (createCompiler flakyEnv soloOptions emptyWorld))
      (JSError ''Error'' ''hook failed'')"
    by blast
  from p none ok p' bad last show ?thesis by blast
qed

end
